theory Spec2Isabelle
  imports Main "HOL-Library.Word" "HOL-Library.Multiset" "HOL-Library.Mapping"
    "HOL-Library.AList_Mapping"
begin

section \<open>Data model of package config\<close>

text \<open>
  A Go slice is either nil or a (possibly empty) sequence; \<open>reflect.DeepEqual\<close>, the
  nil checks of \<open>prepare\<close>, \<open>convertV4V5\<close> and \<open>fillNilSlices\<close> tell the two apart, so
  a slice is an optional list: \<open>None\<close> is nil. The configuration is built by the XML
  decoder, which gives every slice a backing array of its own, so slices are modelled
  by value.
\<close>

type_synonym 'a slice = "'a list option"

definition elems :: "'a slice \<Rightarrow> 'a list" where
  "elems s = (case s of None \<Rightarrow> [] | Some xs \<Rightarrow> xs)"

definition append1 :: "'a slice \<Rightarrow> 'a \<Rightarrow> 'a slice" where
  \<comment> \<open>\<open>append(s, x)\<close>: the result is never nil.\<close>
  "append1 s x = Some (elems s @ [x])"

text \<open>
  \<open>protocol.DeviceID\<close> is a 32-byte array; \<open>Compare\<close> is \<open>bytes.Compare\<close> and \<open>Equals\<close>
  is \<open>Compare = 0\<close>. A 256-bit word read big-endian has the same equality and the
  same order.
\<close>

type_synonym DeviceID = "256 word"

record FolderDeviceConfiguration =
  FolderDevice_DeviceID :: DeviceID
  Deprecated_Name :: string
  Deprecated_Addresses :: "string slice"

text \<open>
  \<open>Params\<close> is a Go map, nil or not: an optional finite mapping, compared by its
  entries.
\<close>

record VersioningConfiguration =
  Type :: string
  Params :: "(string, string) mapping option"

record FolderConfiguration =
  ID :: string
  Path :: string
  Folder_Devices :: "FolderDeviceConfiguration slice"
  ReadOnly :: bool
  RescanIntervalS :: int
  IgnorePerms :: bool
  Invalid :: string
  Versioning :: VersioningConfiguration
  deviceIDs :: "DeviceID slice"
  Deprecated_Directory :: string
  Folder_Deprecated_Nodes :: "FolderDeviceConfiguration slice"

record DeviceConfiguration =
  DeviceID :: DeviceID
  Name :: string
  Addresses :: "string slice"
  Compression :: bool
  CertName :: string
  Introducer :: bool

record OptionsConfiguration =
  ListenAddress :: "string slice"
  GlobalAnnServer :: string
  GlobalAnnEnabled :: bool
  LocalAnnEnabled :: bool
  LocalAnnPort :: int
  LocalAnnMCAddr :: string
  MaxSendKbps :: int
  MaxRecvKbps :: int
  ReconnectIntervalS :: int
  StartBrowser :: bool
  UPnPEnabled :: bool
  UPnPLease :: int
  UPnPRenewal :: int
  URAccepted :: int
  RestartOnWakeup :: bool
  AutoUpgradeIntervalH :: int
  Deprecated_RescanIntervalS :: int
  Deprecated_UREnabled :: bool
  Deprecated_URDeclined :: bool
  Deprecated_ReadOnly :: bool
  Deprecated_GUIEnabled :: bool
  Deprecated_GUIAddress :: string

record GUIConfiguration =
  Enabled :: bool
  Address :: string
  User :: string
  Password :: string
  UseTLS :: bool
  APIKey :: string

record Configuration =
  Location :: string
  Version :: int
  Folders :: "FolderConfiguration slice"
  Devices :: "DeviceConfiguration slice"
  GUI :: GUIConfiguration
  Options :: OptionsConfiguration
  XMLName :: "string \<times> string"
  Deprecated_Repositories :: "FolderConfiguration slice"
  Deprecated_Nodes :: "DeviceConfiguration slice"

section \<open>The migration chain\<close>

subsection \<open>Version 1 to 2\<close>

text \<open>
  \<open>devices\<close> is a Go map keyed by \<open>DeviceID.String()\<close>, an injective rendering of the
  identifier, so the model keys it by the identifier. It is kept as an association
  list in order of first insertion: Go ranges over a map in an unspecified order, and
  the list built from it is sorted right after.
\<close>

type_synonym devmap = "(DeviceID \<times> FolderDeviceConfiguration) list"

definition remember :: "devmap \<Rightarrow> FolderDeviceConfiguration \<Rightarrow> devmap" where
  "remember devices device =
     (case map_of devices (FolderDevice_DeviceID device) of
        None \<Rightarrow> devices @ [(FolderDevice_DeviceID device, device)]
      | Some _ \<Rightarrow> devices)"

definition reference_only :: "FolderDeviceConfiguration \<Rightarrow> FolderDeviceConfiguration" where
  \<comment> \<open>\<open>FolderDeviceConfiguration{DeviceID: device.DeviceID}\<close>\<close>
  "reference_only device =
     \<lparr>FolderDevice_DeviceID = FolderDevice_DeviceID device,
      Deprecated_Name = [], Deprecated_Addresses = None\<rparr>"

fun convertV1V2_nodes ::
  "devmap \<Rightarrow> FolderDeviceConfiguration list \<Rightarrow> devmap \<times> FolderDeviceConfiguration list" where
  "convertV1V2_nodes devices [] = (devices, [])"
| "convertV1V2_nodes devices (device # rest) =
     (let (devices', rest') = convertV1V2_nodes (remember devices device) rest
      in (devices', reference_only device # rest'))"

fun convertV1V2_folders ::
  "bool \<Rightarrow> devmap \<Rightarrow> FolderConfiguration list \<Rightarrow> devmap \<times> FolderConfiguration list" where
  "convertV1V2_folders ro devices [] = (devices, [])"
| "convertV1V2_folders ro devices (folder # rest) =
     (let (devices1, nodes') =
            (case Folder_Deprecated_Nodes folder of
               None \<Rightarrow> (devices, None)
             | Some ns \<Rightarrow> (let (d, ns') = convertV1V2_nodes devices ns in (d, Some ns')));
          folder' = folder\<lparr>ReadOnly := ro, Folder_Deprecated_Nodes := nodes'\<rparr>;
          (devices2, rest') = convertV1V2_folders ro devices1 rest
      in (devices2, folder' # rest'))"

definition device_of_node :: "FolderDeviceConfiguration \<Rightarrow> DeviceConfiguration" where
  "device_of_node device =
     \<lparr>DeviceID = FolderDevice_DeviceID device, Name = Deprecated_Name device,
      Addresses = Deprecated_Addresses device, Compression = False, CertName = [],
      Introducer = False\<rparr>"

text \<open>
  \<open>sort.Sort\<close> orders by \<open>Less\<close> (\<open>Compare = -1\<close>) and returns a permutation; the order
  it leaves among equal identifiers is unspecified, and nothing below depends on it.
\<close>

definition sortDevices :: "DeviceConfiguration slice \<Rightarrow> DeviceConfiguration slice" where
  "sortDevices s = map_option (sort_key DeviceID) s"

definition sortFolderDevices ::
  "FolderDeviceConfiguration slice \<Rightarrow> FolderDeviceConfiguration slice" where
  "sortFolderDevices s = map_option (sort_key FolderDevice_DeviceID) s"

definition convertV1V2 :: "Configuration \<Rightarrow> Configuration" where
  "convertV1V2 cfg =
     (let ro = Deprecated_ReadOnly (Options cfg);
          (devices, repos) =
            (case Deprecated_Repositories cfg of
               None \<Rightarrow> ([], None)
             | Some fs \<Rightarrow> (let (d, fs') = convertV1V2_folders ro [] fs in (d, Some fs')));
          nodes = foldl append1 (Deprecated_Nodes cfg) (map (device_of_node \<circ> snd) devices);
          gui = (GUI cfg)\<lparr>Address := Deprecated_GUIAddress (Options cfg),
                           Enabled := Deprecated_GUIEnabled (Options cfg)\<rparr>;
          opts = (Options cfg)\<lparr>Deprecated_ReadOnly := False,
                               Deprecated_GUIEnabled := False,
                               Deprecated_GUIAddress := []\<rparr>
      in cfg\<lparr>Deprecated_Repositories := repos,
              Deprecated_Nodes := sortDevices nodes,
              GUI := gui, Options := opts, Version := 2\<rparr>)"

subsection \<open>Version 2 to 3\<close>

definition convertV2V3 :: "Configuration \<Rightarrow> Configuration" where
  "convertV2V3 cfg =
     (let nodes = map_option (map (\<lambda>n. n\<lparr>Compression := True\<rparr>)) (Deprecated_Nodes cfg);
          opts = (if GlobalAnnServer (Options cfg) = ''announce.syncthing.net:22025''
                  then (Options cfg)\<lparr>GlobalAnnServer := ''announce.syncthing.net:22026''\<rparr>
                  else Options cfg)
      in cfg\<lparr>Deprecated_Nodes := nodes, Options := opts, Version := 3\<rparr>)"

subsection \<open>Version 3 to 4\<close>

text \<open>
  The second loop of \<open>convertV3V4\<close> assigns
  \<open>rncfg := cfg.Deprecated_Repositories[i].Deprecated_Nodes[j]\<close>, a copy of the
  element (the element type is a struct, not a pointer), and clears the name and the
  addresses of that copy. The copy is dropped at the end of the iteration, so the
  loop body returns the node it was given.
\<close>

definition convertV3V4_node :: "FolderDeviceConfiguration \<Rightarrow> FolderDeviceConfiguration" where
  "convertV3V4_node node =
     (let rncfg = node;
          rncfg = rncfg\<lparr>Deprecated_Name := []\<rparr>;
          rncfg = rncfg\<lparr>Deprecated_Addresses := None\<rparr>
      in node)"

definition convertV3V4 :: "Configuration \<Rightarrow> Configuration" where
  "convertV3V4 cfg =
     (let repos = map_option
                    (map (\<lambda>r. r\<lparr>RescanIntervalS := Deprecated_RescanIntervalS (Options cfg)\<rparr>))
                    (Deprecated_Repositories cfg);
          opts = (Options cfg)\<lparr>Deprecated_RescanIntervalS := 0\<rparr>;
          repos = map_option
                    (map (\<lambda>folder. folder\<lparr>Folder_Deprecated_Nodes :=
                            map_option (map convertV3V4_node) (Folder_Deprecated_Nodes folder)\<rparr>))
                    repos
      in cfg\<lparr>Deprecated_Repositories := repos, Options := opts, Version := 4\<rparr>)"

subsection \<open>Version 4 to 5\<close>

definition convertV4V5_folder :: "FolderConfiguration \<Rightarrow> FolderConfiguration" where
  "convertV4V5_folder f =
     f\<lparr>Path := Deprecated_Directory f, Deprecated_Directory := [],
       Folder_Devices := Folder_Deprecated_Nodes f, Folder_Deprecated_Nodes := None\<rparr>"

definition convertV4V5 :: "Configuration \<Rightarrow> Configuration" where
  "convertV4V5 cfg =
     (let nodes = (case Deprecated_Nodes cfg of None \<Rightarrow> Some [] | Some ns \<Rightarrow> Some ns);
          repos = (case Deprecated_Repositories cfg of None \<Rightarrow> Some [] | Some rs \<Rightarrow> Some rs)
      in cfg\<lparr>Devices := nodes,
              Folders := map_option (map convertV4V5_folder) repos,
              Deprecated_Nodes := None, Deprecated_Repositories := None,
              Version := 5\<rparr>)"

subsection \<open>The driver inside prepare\<close>

definition migrate :: "Configuration \<Rightarrow> Configuration" where
  "migrate cfg =
     (let cfg = (if Version cfg = 1 then convertV1V2 cfg else cfg);
          cfg = (if Version cfg = 2 then convertV2V3 cfg else cfg);
          cfg = (if Version cfg = 3 then convertV3V4 cfg else cfg);
          cfg = (if Version cfg = 4 then convertV4V5 cfg else cfg)
      in cfg)"

section \<open>Default injection\<close>

datatype error = ErrSyntax | ErrRange | OSError string | DecodeError string

text \<open>
  \<open>strconv.ParseInt(v, 10, 64)\<close>: an optional sign, then decimal digits read left to
  right; the first character that is no digit is a syntax error, a value outside the
  64-bit range a range error.
\<close>

definition digit_of :: "char \<Rightarrow> int option" where
  "digit_of c =
     (if 48 \<le> (of_char c :: int) \<and> (of_char c :: int) \<le> 57
      then Some ((of_char c :: int) - 48) else None)"

fun ParseUint_from :: "int \<Rightarrow> string \<Rightarrow> error + int" where
  "ParseUint_from n [] = Inr n"
| "ParseUint_from n (c # cs) =
     (case digit_of c of
        None \<Rightarrow> Inl ErrSyntax
      | Some d \<Rightarrow> (if n * 10 + d \<ge> 2 ^ 64 then Inl ErrRange
                   else ParseUint_from (n * 10 + d) cs))"

definition ParseUint :: "string \<Rightarrow> error + int" where
  "ParseUint s = (if s = [] then Inl ErrSyntax else ParseUint_from 0 s)"

definition ParseInt :: "string \<Rightarrow> error + int" where
  "ParseInt s =
     (case s of
        [] \<Rightarrow> Inl ErrSyntax
      | c # cs \<Rightarrow>
          (let neg = (c = CHR ''-'');
               digits = (if c = CHR ''+'' \<or> c = CHR ''-'' then cs else s)
           in case ParseUint digits of
                Inl e \<Rightarrow> Inl e
              | Inr un \<Rightarrow>
                  (if \<not> neg \<and> un \<ge> 2 ^ 63 then Inl ErrRange
                   else if neg \<and> un > 2 ^ 63 then Inl ErrRange
                   else Inr (if neg then - un else un))))"

text \<open>
  The reflective view of a struct: its fields in declaration order, each with its
  name and its value. \<open>setDefaults\<close> and \<open>fillNilSlices\<close> switch on the dynamic type
  of a field; \<open>OtherV\<close> stands for a field of any type the switch has no case for.
  The \<open>default\<close> tag of a field is looked up by the field's name; no tag is the empty
  string.
\<close>

datatype FieldValue =
  StringV string | IntV int | BoolV bool | StringsV "string slice" | OtherV

type_synonym Field = "string \<times> FieldValue"

type_synonym tags = "string \<Rightarrow> string"

datatype 'a result = Panic | Done 'a

fun setDefaults :: "tags \<Rightarrow> Field list \<Rightarrow> (Field list \<times> error option) result" where
  "setDefaults tg [] = Done ([], None)"
| "setDefaults tg ((name, f) # rest) =
     (let v = tg name;
          continue = (\<lambda>f'. case setDefaults tg rest of
                              Panic \<Rightarrow> Panic
                            | Done (rest', err) \<Rightarrow> Done ((name, f') # rest', err))
      in if length v > 0 then
           (case f of
              StringV _ \<Rightarrow> continue (StringV v)
            | IntV _ \<Rightarrow>
                (case ParseInt v of
                   Inl err \<Rightarrow> Done ((name, f) # rest, Some err)
                 | Inr i \<Rightarrow> continue (IntV i))
            | BoolV _ \<Rightarrow> continue (BoolV (v = ''true''))
            | StringsV _ \<Rightarrow> continue f
            | OtherV \<Rightarrow> Panic)
         else continue f)"

fun fillNilSlices :: "tags \<Rightarrow> Field list \<Rightarrow> Field list" where
  "fillNilSlices tg [] = []"
| "fillNilSlices tg ((name, f) # rest) =
     (let v = tg name;
          f' = (if length v > 0 then
                  (case f of
                     StringsV None \<Rightarrow> StringsV (Some [v])
                   | _ \<Rightarrow> f)
                else f)
      in (name, f') # fillNilSlices tg rest)"

definition string_of :: "FieldValue \<Rightarrow> string" where
  "string_of f = (case f of StringV s \<Rightarrow> s | _ \<Rightarrow> [])"

definition int_of :: "FieldValue \<Rightarrow> int" where
  "int_of f = (case f of IntV i \<Rightarrow> i | _ \<Rightarrow> 0)"

definition bool_of :: "FieldValue \<Rightarrow> bool" where
  "bool_of f = (case f of BoolV b \<Rightarrow> b | _ \<Rightarrow> False)"

definition strings_of :: "FieldValue \<Rightarrow> string slice" where
  "strings_of f = (case f of StringsV s \<Rightarrow> s | _ \<Rightarrow> None)"

definition fields_Configuration :: "Configuration \<Rightarrow> Field list" where
  "fields_Configuration c =
     [(''Location'', StringV (Location c)), (''Version'', IntV (Version c)),
      (''Folders'', OtherV), (''Devices'', OtherV), (''GUI'', OtherV),
      (''Options'', OtherV), (''XMLName'', OtherV),
      (''Deprecated_Repositories'', OtherV), (''Deprecated_Nodes'', OtherV)]"

definition assign_Configuration :: "Field list \<Rightarrow> Configuration \<Rightarrow> Configuration" where
  "assign_Configuration fs c =
     c\<lparr>Location := string_of (snd (fs ! 0)), Version := int_of (snd (fs ! 1))\<rparr>"

definition fields_GUI :: "GUIConfiguration \<Rightarrow> Field list" where
  "fields_GUI g =
     [(''Enabled'', BoolV (Enabled g)), (''Address'', StringV (Address g)),
      (''User'', StringV (User g)), (''Password'', StringV (Password g)),
      (''UseTLS'', BoolV (UseTLS g)), (''APIKey'', StringV (APIKey g))]"

definition assign_GUI :: "Field list \<Rightarrow> GUIConfiguration" where
  "assign_GUI fs =
     \<lparr>Enabled = bool_of (snd (fs ! 0)), Address = string_of (snd (fs ! 1)),
      User = string_of (snd (fs ! 2)), Password = string_of (snd (fs ! 3)),
      UseTLS = bool_of (snd (fs ! 4)), APIKey = string_of (snd (fs ! 5))\<rparr>"

definition fields_Options :: "OptionsConfiguration \<Rightarrow> Field list" where
  "fields_Options opt =
     [(''ListenAddress'', StringsV (ListenAddress opt)),
      (''GlobalAnnServer'', StringV (GlobalAnnServer opt)),
      (''GlobalAnnEnabled'', BoolV (GlobalAnnEnabled opt)),
      (''LocalAnnEnabled'', BoolV (LocalAnnEnabled opt)),
      (''LocalAnnPort'', IntV (LocalAnnPort opt)),
      (''LocalAnnMCAddr'', StringV (LocalAnnMCAddr opt)),
      (''MaxSendKbps'', IntV (MaxSendKbps opt)),
      (''MaxRecvKbps'', IntV (MaxRecvKbps opt)),
      (''ReconnectIntervalS'', IntV (ReconnectIntervalS opt)),
      (''StartBrowser'', BoolV (StartBrowser opt)),
      (''UPnPEnabled'', BoolV (UPnPEnabled opt)),
      (''UPnPLease'', IntV (UPnPLease opt)),
      (''UPnPRenewal'', IntV (UPnPRenewal opt)),
      (''URAccepted'', IntV (URAccepted opt)),
      (''RestartOnWakeup'', BoolV (RestartOnWakeup opt)),
      (''AutoUpgradeIntervalH'', IntV (AutoUpgradeIntervalH opt)),
      (''Deprecated_RescanIntervalS'', IntV (Deprecated_RescanIntervalS opt)),
      (''Deprecated_UREnabled'', BoolV (Deprecated_UREnabled opt)),
      (''Deprecated_URDeclined'', BoolV (Deprecated_URDeclined opt)),
      (''Deprecated_ReadOnly'', BoolV (Deprecated_ReadOnly opt)),
      (''Deprecated_GUIEnabled'', BoolV (Deprecated_GUIEnabled opt)),
      (''Deprecated_GUIAddress'', StringV (Deprecated_GUIAddress opt))]"

definition assign_Options :: "Field list \<Rightarrow> OptionsConfiguration" where
  "assign_Options fs =
     \<lparr>ListenAddress = strings_of (snd (fs ! 0)),
      GlobalAnnServer = string_of (snd (fs ! 1)),
      GlobalAnnEnabled = bool_of (snd (fs ! 2)),
      LocalAnnEnabled = bool_of (snd (fs ! 3)),
      LocalAnnPort = int_of (snd (fs ! 4)),
      LocalAnnMCAddr = string_of (snd (fs ! 5)),
      MaxSendKbps = int_of (snd (fs ! 6)),
      MaxRecvKbps = int_of (snd (fs ! 7)),
      ReconnectIntervalS = int_of (snd (fs ! 8)),
      StartBrowser = bool_of (snd (fs ! 9)),
      UPnPEnabled = bool_of (snd (fs ! 10)),
      UPnPLease = int_of (snd (fs ! 11)),
      UPnPRenewal = int_of (snd (fs ! 12)),
      URAccepted = int_of (snd (fs ! 13)),
      RestartOnWakeup = bool_of (snd (fs ! 14)),
      AutoUpgradeIntervalH = int_of (snd (fs ! 15)),
      Deprecated_RescanIntervalS = int_of (snd (fs ! 16)),
      Deprecated_UREnabled = bool_of (snd (fs ! 17)),
      Deprecated_URDeclined = bool_of (snd (fs ! 18)),
      Deprecated_ReadOnly = bool_of (snd (fs ! 19)),
      Deprecated_GUIEnabled = bool_of (snd (fs ! 20)),
      Deprecated_GUIAddress = string_of (snd (fs ! 21))\<rparr>"

text \<open>The \<open>default\<close> tags the three structs declare.\<close>

definition Configuration_defaults :: tags where
  "Configuration_defaults = (\<lambda>_. [])(''Version'' := ''5'')"

definition GUI_defaults :: tags where
  "GUI_defaults = (\<lambda>_. [])(''Enabled'' := ''true'', ''Address'' := ''127.0.0.1:8080'')"

definition Options_defaults :: tags where
  "Options_defaults = (\<lambda>_. [])
     (''ListenAddress'' := ''0.0.0.0:22000'',
      ''GlobalAnnServer'' := ''announce.syncthing.net:22026'',
      ''GlobalAnnEnabled'' := ''true'',
      ''LocalAnnEnabled'' := ''true'',
      ''LocalAnnPort'' := ''21025'',
      ''LocalAnnMCAddr'' := ''[ff32::5222]:21026'',
      ''ReconnectIntervalS'' := ''60'',
      ''StartBrowser'' := ''true'',
      ''UPnPEnabled'' := ''true'',
      ''UPnPLease'' := ''0'',
      ''UPnPRenewal'' := ''30'',
      ''RestartOnWakeup'' := ''true'',
      ''AutoUpgradeIntervalH'' := ''12'')"

section \<open>The consistency normalizer\<close>

text \<open>
  What \<open>prepare\<close>, \<open>New\<close> and \<open>Load\<close> take from outside the package: the host name
  (\<open>os.Hostname\<close>, empty on error), the password hash (\<open>bcrypt.GenerateFromPassword\<close>,
  \<open>None\<close> on error), the file system and the XML decoder, and the \<open>default\<close> tags
  that reflection reads off the three struct types.
\<close>

record Env =
  Hostname :: string
  GenerateFromPassword :: "string \<Rightarrow> string option"
  Open :: "string \<Rightarrow> error option"
  Decode :: "string \<Rightarrow> Configuration \<Rightarrow> Configuration \<times> error option"
  Configuration_tags :: tags
  Options_tags :: tags
  GUI_tags :: tags

definition uniqueStrings :: "string slice \<Rightarrow> string slice" where
  \<comment> \<open>The keys of a freshly made map, in the map's (unspecified) order.\<close>
  "uniqueStrings ss = Some (remdups (elems ss))"

subsection \<open>Folder identifiers\<close>

function itoa :: "nat \<Rightarrow> string" where
  "itoa n = (if n < 10 then [''0123456789'' ! n]
             else itoa (n div 10) @ [''0123456789'' ! (n mod 10)])"
  by pat_completeness auto
termination
  by (relation "measure id") auto

declare itoa.simps [simp del]

definition Sprintf_s_tilde_d :: "string \<Rightarrow> nat \<Rightarrow> string" where
  \<comment> \<open>\<open>fmt.Sprintf("%s~%d", s, n)\<close>\<close>
  "Sprintf_s_tilde_d s n = s @ ''~'' @ itoa n"

text \<open>
  \<open>seenFolders\<close> maps an identifier to a pointer into \<open>cfg.Folders\<close>; the model keeps
  the index of that element. \<open>uniqueCounter\<close> grows by at most two per folder.
\<close>

type_synonym folder_check = "FolderConfiguration list \<times> (string \<rightharpoonup> nat) \<times> nat"

definition set_Invalid :: "nat \<Rightarrow> string \<Rightarrow> FolderConfiguration list \<Rightarrow> FolderConfiguration list" where
  \<comment> \<open>\<open>p.Invalid = v\<close> for the pointer \<open>p\<close> to element \<open>p\<close> of the folder list\<close>
  "set_Invalid p v fs = fs[p := (fs ! p)\<lparr>Invalid := v\<rparr>]"

definition set_ID :: "nat \<Rightarrow> string \<Rightarrow> FolderConfiguration list \<Rightarrow> FolderConfiguration list" where
  \<comment> \<open>\<open>p.ID = v\<close>\<close>
  "set_ID p v fs = fs[p := (fs ! p)\<lparr>ID := v\<rparr>]"

definition checkFolder :: "folder_check \<Rightarrow> nat \<Rightarrow> folder_check" where
  "checkFolder st i =
     (case st of (fs, seenFolders, uniqueCounter) \<Rightarrow>
        if length (Path (fs ! i)) = 0
        then (set_Invalid i ''no directory configured'' fs, seenFolders, uniqueCounter)
        else
          let fs = (if ID (fs ! i) = [] then set_ID i ''default'' fs else fs)
          in case seenFolders (ID (fs ! i)) of
               Some seen \<Rightarrow>
                 let fs = set_Invalid seen ''duplicate folder ID'' fs;
                     (fs, uniqueCounter) =
                       (if ID (fs ! seen) = ID (fs ! i)
                        then (set_ID seen (Sprintf_s_tilde_d (ID (fs ! i)) (uniqueCounter + 1)) fs,
                              uniqueCounter + 1)
                        else (fs, uniqueCounter));
                     fs = set_Invalid i ''duplicate folder ID'' fs;
                     uniqueCounter = uniqueCounter + 1;
                     fs = set_ID i (Sprintf_s_tilde_d (ID (fs ! i)) uniqueCounter) fs
                 in (fs, seenFolders, uniqueCounter)
             | None \<Rightarrow> (fs, seenFolders(ID (fs ! i) \<mapsto> i), uniqueCounter))"

definition checkFolders :: "FolderConfiguration list \<Rightarrow> FolderConfiguration list" where
  "checkFolders fs = fst (foldl checkFolder (fs, Map.empty, 0) [0..<length fs])"

subsection \<open>Folder membership\<close>

definition ensureDevicePresent ::
  "FolderDeviceConfiguration slice \<Rightarrow> DeviceID \<Rightarrow> FolderDeviceConfiguration slice" where
  "ensureDevicePresent devices myID =
     (if list_ex (\<lambda>device. FolderDevice_DeviceID device = myID) (elems devices)
      then devices
      else append1 devices
             \<lparr>FolderDevice_DeviceID = myID, Deprecated_Name = [], Deprecated_Addresses = None\<rparr>)"

text \<open>
  Both loops below work in place on the backing array: an element to drop is
  overwritten by the last live element and the live length shrinks by one. The live
  length \<open>cnt\<close> (\<open>count\<close> in the source) never exceeds the length of the list, so
  every index read is in range.
\<close>

function ensureExistingDevices_loop ::
  "(DeviceID \<rightharpoonup> bool) \<Rightarrow> FolderDeviceConfiguration list \<Rightarrow> nat \<Rightarrow> nat
     \<Rightarrow> FolderDeviceConfiguration list \<times> nat" where
  "ensureExistingDevices_loop existingDevices devices i cnt =
     (if i < cnt then
        (if existingDevices (FolderDevice_DeviceID (devices ! i)) = None
         then ensureExistingDevices_loop existingDevices
                (devices[i := devices ! (cnt - 1)]) i (cnt - 1)
         else ensureExistingDevices_loop existingDevices devices (i + 1) cnt)
      else (devices, cnt))"
  by pat_completeness auto
termination
  by (relation "measure (\<lambda>(e, d, i, c). c - i)") auto

declare ensureExistingDevices_loop.simps [simp del]

definition ensureExistingDevices ::
  "FolderDeviceConfiguration slice \<Rightarrow> (DeviceID \<rightharpoonup> bool) \<Rightarrow> FolderDeviceConfiguration slice" where
  "ensureExistingDevices devices existingDevices =
     (case devices of
        None \<Rightarrow> None
      | Some ds \<Rightarrow>
          (let (ds', cnt) = ensureExistingDevices_loop existingDevices ds 0 (length ds)
           in Some (take cnt ds')))"

function ensureNoDuplicates_loop ::
  "(DeviceID \<rightharpoonup> bool) \<Rightarrow> FolderDeviceConfiguration list \<Rightarrow> nat \<Rightarrow> nat
     \<Rightarrow> FolderDeviceConfiguration list \<times> nat" where
  "ensureNoDuplicates_loop seenDevices devices i cnt =
     (if i < cnt then
        (let id = FolderDevice_DeviceID (devices ! i)
         in if seenDevices id \<noteq> None
            then ensureNoDuplicates_loop seenDevices
                   (devices[i := devices ! (cnt - 1)]) i (cnt - 1)
            else ensureNoDuplicates_loop (seenDevices(id \<mapsto> True)) devices (i + 1) cnt)
      else (devices, cnt))"
  by pat_completeness auto
termination
  by (relation "measure (\<lambda>(s, d, i, c). c - i)") auto

declare ensureNoDuplicates_loop.simps [simp del]

definition ensureNoDuplicates ::
  "FolderDeviceConfiguration slice \<Rightarrow> FolderDeviceConfiguration slice" where
  "ensureNoDuplicates devices =
     (case devices of
        None \<Rightarrow> None
      | Some ds \<Rightarrow>
          (let (ds', cnt) = ensureNoDuplicates_loop Map.empty ds 0 (length ds)
           in Some (take cnt ds')))"

subsection \<open>prepare\<close>

definition existingDevices_of :: "DeviceID \<Rightarrow> DeviceConfiguration list \<Rightarrow> (DeviceID \<rightharpoonup> bool)" where
  "existingDevices_of myID ds =
     foldl (\<lambda>m device. m(DeviceID device \<mapsto> True)) [myID \<mapsto> True] ds"

definition GetDeviceConfiguration :: "Configuration \<Rightarrow> DeviceID \<Rightarrow> nat option" where
  \<comment> \<open>The index of the first device with that identifier, for the pointer to it.\<close>
  "GetDeviceConfiguration cfg deviceID =
     (case filter (\<lambda>i. DeviceID (elems (Devices cfg) ! i) = deviceID)
             [0..<length (elems (Devices cfg))] of
        [] \<Rightarrow> None
      | i # _ \<Rightarrow> Some i)"

definition prepare_options :: "Env \<Rightarrow> Configuration \<Rightarrow> Configuration" where
  "prepare_options env cfg =
     (let opts = assign_Options (fillNilSlices (Options_tags env) (fields_Options (Options cfg)));
          opts = opts\<lparr>ListenAddress := uniqueStrings (ListenAddress opts)\<rparr>
      in cfg\<lparr>Options := opts\<rparr>)"

definition prepare_folders :: "Configuration \<Rightarrow> Configuration" where
  "prepare_folders cfg =
     (let cfg = (if Folders cfg = None then cfg\<lparr>Folders := Some []\<rparr> else cfg)
      in cfg\<lparr>Folders := map_option checkFolders (Folders cfg)\<rparr>)"

definition prepare_usage_reporting :: "Configuration \<Rightarrow> Configuration" where
  "prepare_usage_reporting cfg =
     (let opts = Options cfg;
          opts = (if Deprecated_URDeclined opts then opts\<lparr>URAccepted := - 1\<rparr> else opts);
          opts = opts\<lparr>Deprecated_URDeclined := False, Deprecated_UREnabled := False\<rparr>
      in cfg\<lparr>Options := opts\<rparr>)"

definition prepare_password :: "Env \<Rightarrow> Configuration \<Rightarrow> Configuration" where
  "prepare_password env cfg =
     (case Password (GUI cfg) of
        [] \<Rightarrow> cfg
      | c # _ \<Rightarrow>
          if c \<noteq> CHR ''$'' then
            (case GenerateFromPassword env (Password (GUI cfg)) of
               None \<Rightarrow> cfg
             | Some hash \<Rightarrow> cfg\<lparr>GUI := (GUI cfg)\<lparr>Password := hash\<rparr>\<rparr>)
          else cfg)"

definition prepare_folder_devices ::
  "DeviceID \<Rightarrow> (DeviceID \<rightharpoonup> bool) \<Rightarrow> FolderConfiguration \<Rightarrow> FolderConfiguration" where
  \<comment> \<open>The body of the loop over \<open>cfg.Folders\<close> that closes the device pass.\<close>
  "prepare_folder_devices myID existingDevices f =
     (let f = f\<lparr>Folder_Devices := ensureDevicePresent (Folder_Devices f) myID\<rparr>;
          f = f\<lparr>Folder_Devices := ensureExistingDevices (Folder_Devices f) existingDevices\<rparr>;
          f = f\<lparr>Folder_Devices := ensureNoDuplicates (Folder_Devices f)\<rparr>
      in f\<lparr>Folder_Devices := sortFolderDevices (Folder_Devices f)\<rparr>)"

definition prepare_devices :: "Env \<Rightarrow> DeviceID \<Rightarrow> Configuration \<Rightarrow> Configuration" where
  "prepare_devices env myID cfg =
     (let existingDevices = existingDevices_of myID (elems (Devices cfg));
          cfg = (case GetDeviceConfiguration cfg myID of
                   None \<Rightarrow>
                     cfg\<lparr>Devices := append1 (Devices cfg)
                           \<lparr>DeviceID = myID, Name = Hostname env, Addresses = None,
                            Compression = False, CertName = [], Introducer = False\<rparr>\<rparr>
                 | Some _ \<Rightarrow> cfg);
          cfg = cfg\<lparr>Devices := sortDevices (Devices cfg)\<rparr>;
          cfg = cfg\<lparr>Folders := map_option (map (prepare_folder_devices myID existingDevices))
                                  (Folders cfg)\<rparr>
      in cfg)"

definition prepare_addresses :: "Configuration \<Rightarrow> Configuration" where
  "prepare_addresses cfg =
     cfg\<lparr>Devices := map_option
            (map (\<lambda>n. if length (elems (Addresses n)) = 0
                          \<or> length (elems (Addresses n)) = 1 \<and> elems (Addresses n) ! 0 = []
                       then n\<lparr>Addresses := Some [''dynamic'']\<rparr> else n))
            (Devices cfg)\<rparr>"

definition prepare :: "Env \<Rightarrow> DeviceID \<Rightarrow> Configuration \<Rightarrow> Configuration" where
  "prepare env myID cfg =
     (let cfg = prepare_options env cfg;
          cfg = prepare_folders cfg;
          cfg = prepare_usage_reporting cfg;
          cfg = migrate cfg;
          cfg = prepare_password env cfg;
          cfg = prepare_devices env myID cfg;
          cfg = prepare_addresses cfg
      in cfg)"

section \<open>Construction, loading and saving\<close>

definition zero_Options :: OptionsConfiguration where
  "zero_Options =
     \<lparr>ListenAddress = None, GlobalAnnServer = [], GlobalAnnEnabled = False,
      LocalAnnEnabled = False, LocalAnnPort = 0, LocalAnnMCAddr = [], MaxSendKbps = 0,
      MaxRecvKbps = 0, ReconnectIntervalS = 0, StartBrowser = False, UPnPEnabled = False,
      UPnPLease = 0, UPnPRenewal = 0, URAccepted = 0, RestartOnWakeup = False,
      AutoUpgradeIntervalH = 0, Deprecated_RescanIntervalS = 0,
      Deprecated_UREnabled = False, Deprecated_URDeclined = False,
      Deprecated_ReadOnly = False, Deprecated_GUIEnabled = False,
      Deprecated_GUIAddress = []\<rparr>"

definition zero_GUI :: GUIConfiguration where
  "zero_GUI =
     \<lparr>Enabled = False, Address = [], User = [], Password = [], UseTLS = False, APIKey = []\<rparr>"

definition zero_Configuration :: Configuration where
  "zero_Configuration =
     \<lparr>Location = [], Version = 0, Folders = None, Devices = None, GUI = zero_GUI,
      Options = zero_Options, XMLName = ([], []), Deprecated_Repositories = None,
      Deprecated_Nodes = None\<rparr>"

definition zero_Folder :: FolderConfiguration where
  "zero_Folder =
     \<lparr>ID = [], Path = [], Folder_Devices = None, ReadOnly = False, RescanIntervalS = 0,
      IgnorePerms = False, Invalid = [], Versioning = \<lparr>Type = [], Params = None\<rparr>,
      deviceIDs = None, Deprecated_Directory = [], Folder_Deprecated_Nodes = None\<rparr>"

text \<open>
  The three \<open>setDefaults\<close> calls that open both \<open>New\<close> and \<open>Load\<close>. The error each
  call returns is not bound to anything; a panic inside a call ends the caller.
\<close>

definition inject_defaults :: "Env \<Rightarrow> Configuration \<Rightarrow> Configuration result" where
  "inject_defaults env cfg =
     (case setDefaults (Configuration_tags env) (fields_Configuration cfg) of
        Panic \<Rightarrow> Panic
      | Done (fs, _) \<Rightarrow>
          (let cfg = assign_Configuration fs cfg
           in case setDefaults (Options_tags env) (fields_Options (Options cfg)) of
                Panic \<Rightarrow> Panic
              | Done (fs, _) \<Rightarrow>
                  (let cfg = cfg\<lparr>Options := assign_Options fs\<rparr>
                   in case setDefaults (GUI_tags env) (fields_GUI (GUI cfg)) of
                        Panic \<Rightarrow> Panic
                      | Done (fs, _) \<Rightarrow> Done (cfg\<lparr>GUI := assign_GUI fs\<rparr>))))"

definition New :: "Env \<Rightarrow> string \<Rightarrow> DeviceID \<Rightarrow> Configuration result" where
  "New env location myID =
     (case inject_defaults env (zero_Configuration\<lparr>Location := location\<rparr>) of
        Panic \<Rightarrow> Panic
      | Done cfg \<Rightarrow> Done (prepare env myID cfg))"

definition Load :: "Env \<Rightarrow> string \<Rightarrow> DeviceID \<Rightarrow> (Configuration \<times> error option) result" where
  "Load env location myID =
     (case inject_defaults env (zero_Configuration\<lparr>Location := location\<rparr>) of
        Panic \<Rightarrow> Panic
      | Done cfg \<Rightarrow>
          (case Open env location of
             Some err \<Rightarrow> Done (zero_Configuration, Some err)
           | None \<Rightarrow>
               (let (cfg, err) = Decode env location cfg
                in Done (prepare env myID cfg, err))))"

text \<open>The environment of the shipped program: the declared tags.\<close>

definition declared ::
  "string \<Rightarrow> (string \<Rightarrow> string option) \<Rightarrow> (string \<Rightarrow> error option)
     \<Rightarrow> (string \<Rightarrow> Configuration \<Rightarrow> Configuration \<times> error option) \<Rightarrow> Env" where
  "declared host bcrypt opn dec =
     \<lparr>Hostname = host, GenerateFromPassword = bcrypt, Open = opn, Decode = dec,
      Configuration_tags = Configuration_defaults, Options_tags = Options_defaults,
      GUI_tags = GUI_defaults\<rparr>"

subsection \<open>Save\<close>

text \<open>
  \<open>Save\<close> only acts on the outside world. The model returns the actions in the order
  the code performs them, with the error it returns; the results of the five fallible
  calls are inputs. The only action on the real file (\<open>cfg.Location\<close>) is \<open>Rename\<close>.
\<close>

datatype action =
  Create string | Encode Configuration | Write string | Close
| Rename string string | Warnln error | Log_ConfigSaved Configuration

record SaveIO =
  create_result :: "error option"
  encode_result :: "error option"
  write_result :: "error option"
  close_result :: "error option"
  rename_result :: "error option"

definition Save :: "SaveIO \<Rightarrow> Configuration \<Rightarrow> action list \<times> error option" where
  "Save io cfg =
     (let tmp = Location cfg @ ''.tmp''
      in case create_result io of
           Some err \<Rightarrow> ([Create tmp, Warnln err], Some err)
         | None \<Rightarrow>
        (case encode_result io of
           Some err \<Rightarrow> ([Create tmp, Encode cfg, Close], Some err)
         | None \<Rightarrow>
        (case write_result io of
           Some err \<Rightarrow>
             ([Create tmp, Encode cfg, Write [CHR 0x0A], Warnln err, Close], Some err)
         | None \<Rightarrow>
        (case close_result io of
           Some err \<Rightarrow>
             ([Create tmp, Encode cfg, Write [CHR 0x0A], Close, Warnln err], Some err)
         | None \<Rightarrow>
             (let err = rename_result io;
                  warn = (case err of Some e \<Rightarrow> [Warnln e] | None \<Rightarrow> [])
              in ([Create tmp, Encode cfg, Write [CHR 0x0A], Close,
                   Rename tmp (Location cfg)] @ warn @ [Log_ConfigSaved cfg], err))))))"

section \<open>Restart impact\<close>

definition FolderMap :: "Configuration \<Rightarrow> (string \<rightharpoonup> FolderConfiguration)" where
  "FolderMap cfg = foldl (\<lambda>m r. m(ID r \<mapsto> r)) Map.empty (elems (Folders cfg))"

definition DeviceMap :: "Configuration \<Rightarrow> (DeviceID \<rightharpoonup> DeviceConfiguration)" where
  "DeviceMap cfg = foldl (\<lambda>m n. m(DeviceID n \<mapsto> n)) Map.empty (elems (Devices cfg))"

text \<open>
  \<open>reflect.DeepEqual\<close> on these structs (strings, integers, booleans, slices and a map
  of strings) is equality of values that tells a nil slice or map from an empty one:
  equality of the records. Indexing a map at a missing key gives the zero value. The
  keys of a map made from a list are the keys of the list.
\<close>

definition ChangeRequiresRestart :: "Configuration \<Rightarrow> Configuration \<Rightarrow> bool" where
  "ChangeRequiresRestart from to =
     (if length (elems (Folders from)) \<noteq> length (elems (Folders to)) then True
      else
        let fromFolders = FolderMap from;
            toFolders = FolderMap to
        in if list_ex (\<lambda>id. (case fromFolders id of None \<Rightarrow> zero_Folder | Some f \<Rightarrow> f)
                             \<noteq> (case toFolders id of None \<Rightarrow> zero_Folder | Some f \<Rightarrow> f))
                (remdups (map ID (elems (Folders from))))
           then True
           else
             let fromDevices = DeviceMap from;
                 toDevices = DeviceMap to
             in if list_ex (\<lambda>deviceID. toDevices deviceID = None)
                     (remdups (map DeviceID (elems (Devices from))))
                then True
                else if Options from \<noteq> Options to \<or> GUI from \<noteq> GUI to then True
                else False)"

section \<open>The wire-format connection\<close>

text \<open>
  \<open>Index\<close> and \<open>IndexUpdate\<close> receive a slice of \<open>FileInfo\<close> that the caller keeps, so
  for them the arrays live in an explicit store: a list of arrays, an address being
  the position in the list. A slice header names an array, an offset into it and a
  length. \<open>FileInfo\<close> is declared elsewhere in the package; the model knows its \<open>Name\<close>
  and carries all other fields in \<open>FileInfo_rest\<close>, whose zero value is \<open>0\<close>.
\<close>

record 'r FileInfo =
  FileInfo_Name :: string
  FileInfo_rest :: 'r

type_synonym 'r store = "'r FileInfo list list"

record header =
  arr :: nat
  off :: nat
  len :: nat

definition valid :: "'r store \<Rightarrow> header \<Rightarrow> bool" where
  "valid h s = (arr s < length h \<and> off s + len s \<le> length (h ! arr s))"

definition contents :: "'r store \<Rightarrow> header \<Rightarrow> 'r FileInfo list" where
  "contents h s = take (len s) (drop (off s) (h ! arr s))"

definition make_slice :: "'r::zero store \<Rightarrow> nat \<Rightarrow> 'r store \<times> header" where
  \<comment> \<open>\<open>make([]FileInfo, n)\<close>: a new array of \<open>n\<close> zero values\<close>
  "make_slice h n =
     (h @ [replicate n \<lparr>FileInfo_Name = [], FileInfo_rest = 0\<rparr>],
      \<lparr>arr = length h, off = 0, len = n\<rparr>)"

definition store_at :: "'r store \<Rightarrow> header \<Rightarrow> nat \<Rightarrow> 'r FileInfo \<Rightarrow> 'r store" where
  \<comment> \<open>\<open>s[i] = v\<close>\<close>
  "store_at h s i v = h[arr s := (h ! arr s)[off s + i := v]]"

definition load_at :: "'r store \<Rightarrow> header \<Rightarrow> nat \<Rightarrow> 'r FileInfo" where
  \<comment> \<open>\<open>s[i]\<close>\<close>
  "load_at h s i = h ! arr s ! (off s + i)"

definition copy_slice :: "'r store \<Rightarrow> header \<Rightarrow> header \<Rightarrow> 'r store" where
  \<comment> \<open>\<open>copy(dst, src)\<close>, for slices of different arrays\<close>
  "copy_slice h dst src =
     foldl (\<lambda>h i. store_at h dst i (load_at h src i)) h [0..<min (len dst) (len src)]"

text \<open>
  \<open>filepath.ToSlash\<close> replaces the separator of the operating system by a slash;
  \<open>norm.NFC.String\<close> is the Unicode library's and stays a parameter.
\<close>

record Text =
  Separator :: char
  NFC :: "string \<Rightarrow> string"

definition ToSlash :: "Text \<Rightarrow> string \<Rightarrow> string" where
  "ToSlash t path =
     (if Separator t = CHR ''/'' then path
      else map (\<lambda>c. if c = Separator t then CHR ''/'' else c) path)"

record 'r Connection =
  conn_Index :: "'r store \<Rightarrow> string \<Rightarrow> header \<Rightarrow> 'r store \<times> error option"
  conn_IndexUpdate :: "'r store \<Rightarrow> string \<Rightarrow> header \<Rightarrow> 'r store \<times> error option"
  conn_Request :: "string \<Rightarrow> string \<Rightarrow> int \<Rightarrow> int \<Rightarrow> 8 word list \<times> error option"

record 'r wireFormatConnection =
  nxt :: "'r Connection"

definition rename_at :: "Text \<Rightarrow> header \<Rightarrow> 'r store \<Rightarrow> nat \<Rightarrow> 'r store" where
  \<comment> \<open>\<open>myFs[i].Name = norm.NFC.String(filepath.ToSlash(myFs[i].Name))\<close>\<close>
  "rename_at t myFs h i =
     store_at h myFs i
       ((load_at h myFs i)\<lparr>FileInfo_Name := NFC t (ToSlash t (FileInfo_Name (load_at h myFs i)))\<rparr>)"

definition wire_names :: "Text \<Rightarrow> 'r::zero store \<Rightarrow> header \<Rightarrow> 'r store \<times> header" where
  \<comment> \<open>The body that \<open>Index\<close> and \<open>IndexUpdate\<close> share, up to the call of \<open>c.next\<close>.\<close>
  "wire_names t h fs =
     (let (h, myFs) = make_slice h (len fs);
          h = copy_slice h myFs fs;
          h = foldl (rename_at t myFs) h [0..<len fs]
      in (h, myFs))"

definition Index ::
  "Text \<Rightarrow> 'r::zero wireFormatConnection \<Rightarrow> 'r store \<Rightarrow> string \<Rightarrow> header
     \<Rightarrow> 'r store \<times> error option" where
  "Index t c h folder fs =
     (let (h, myFs) = wire_names t h fs in conn_Index (nxt c) h folder myFs)"

definition IndexUpdate ::
  "Text \<Rightarrow> 'r::zero wireFormatConnection \<Rightarrow> 'r store \<Rightarrow> string \<Rightarrow> header
     \<Rightarrow> 'r store \<times> error option" where
  "IndexUpdate t c h folder fs =
     (let (h, myFs) = wire_names t h fs in conn_IndexUpdate (nxt c) h folder myFs)"

definition Request ::
  "Text \<Rightarrow> 'r wireFormatConnection \<Rightarrow> string \<Rightarrow> string \<Rightarrow> int \<Rightarrow> int
     \<Rightarrow> 8 word list \<times> error option" where
  "Request t c folder name offset sz =
     (let name = NFC t (ToSlash t name) in conn_Request (nxt c) folder name offset sz)"

section \<open>Notions used by the statements\<close>

definition known :: "(DeviceID \<rightharpoonup> bool) \<Rightarrow> FolderDeviceConfiguration \<Rightarrow> bool" where
  "known existingDevices d = (existingDevices (FolderDevice_DeviceID d) \<noteq> None)"

definition member_ids :: "FolderConfiguration \<Rightarrow> DeviceID list" where
  \<comment> \<open>the device identifiers of a folder's membership edges, in order\<close>
  "member_ids f = map FolderDevice_DeviceID (elems (Folder_Devices f))"

definition root_ids :: "Configuration \<Rightarrow> DeviceID list" where
  \<comment> \<open>the device identifiers of the root device list, in order\<close>
  "root_ids cfg = map DeviceID (elems (Devices cfg))"

definition before_devices :: "Env \<Rightarrow> Configuration \<Rightarrow> Configuration" where
  \<comment> \<open>the configuration as \<open>prepare\<close> has it when it starts to build \<open>existingDevices\<close>\<close>
  "before_devices env cfg =
     prepare_password env (migrate
       (prepare_usage_reporting (prepare_folders (prepare_options env cfg))))"

abbreviation (input) ids :: "FolderDeviceConfiguration list \<Rightarrow> DeviceID list" where
  "ids ds \<equiv> map FolderDevice_DeviceID ds"

definition migration_steps :: "(Configuration \<Rightarrow> Configuration) list" where
  "migration_steps = [convertV1V2, convertV2V3, convertV3V4, convertV4V5]"

definition wire_name :: "Text \<Rightarrow> 'r FileInfo \<Rightarrow> 'r FileInfo" where
  \<comment> \<open>a file entry with its name in wire format\<close>
  "wire_name t f = f\<lparr>FileInfo_Name := NFC t (ToSlash t (FileInfo_Name f))\<rparr>"

definition only_writes_argument ::
  "('r store \<Rightarrow> string \<Rightarrow> header \<Rightarrow> 'r store \<times> error option) \<Rightarrow> bool" where
  \<comment> \<open>a callee that frees no array and changes none but the one of the slice it is given\<close>
  "only_writes_argument call =
     (\<forall>h folder s. length h \<le> length (fst (call h folder s))
        \<and> (\<forall>a < length h. a \<noteq> arr s \<longrightarrow> fst (call h folder s) ! a = h ! a))"

section \<open>Example inputs\<close>

definition example_env :: Env where
  "example_env = declared ''host'' (\<lambda>_. None) (\<lambda>_. None) (\<lambda>_ c. (c, None))"

definition example_node :: FolderDeviceConfiguration where
  "example_node =
     \<lparr>FolderDevice_DeviceID = 1, Deprecated_Name = ''laptop'',
      Deprecated_Addresses = Some [''192.0.2.1:22000'']\<rparr>"

definition example_v1 :: Configuration where
  "example_v1 =
     zero_Configuration
       \<lparr>Location := ''config.xml'', Version := 1,
        Deprecated_Repositories :=
          Some [zero_Folder\<lparr>ID := ''default'', Deprecated_Directory := ''/data'',
                            Folder_Deprecated_Nodes := Some [example_node]\<rparr>]\<rparr>"

definition example_v3 :: Configuration where
  "example_v3 =
     example_v1\<lparr>Version := 3, Options := zero_Options\<lparr>Deprecated_RescanIntervalS := 60\<rparr>\<rparr>"

definition example_device :: "DeviceID \<Rightarrow> DeviceConfiguration" where
  "example_device i =
     \<lparr>DeviceID = i, Name = ''peer'', Addresses = Some [''dynamic''], Compression = True,
      CertName = [], Introducer = False\<rparr>"

definition example_edge :: "DeviceID \<Rightarrow> FolderDeviceConfiguration" where
  "example_edge i =
     \<lparr>FolderDevice_DeviceID = i, Deprecated_Name = [], Deprecated_Addresses = None\<rparr>"


definition example_v5 :: Configuration where
  \<comment> \<open>one folder with a duplicate edge (2) and an edge to an undeclared device (9)\<close>
  "example_v5 =
     zero_Configuration
       \<lparr>Version := 5,
        Folders := Some [zero_Folder\<lparr>ID := ''default'', Path := ''/data'',
                           Folder_Devices := Some [example_edge 2, example_edge 9, example_edge 2]\<rparr>],
        Devices := Some [example_device 2]\<rparr>"

definition example_unnamed :: Configuration where
  \<comment> \<open>two folders with a path and no identifier\<close>
  "example_unnamed =
     zero_Configuration
       \<lparr>Version := 5,
        Folders := Some [zero_Folder\<lparr>Path := ''/a''\<rparr>, zero_Folder\<lparr>Path := ''/b''\<rparr>]\<rparr>"

definition declared_Options :: OptionsConfiguration where
  \<comment> \<open>the options that the declared tags give to a zero value\<close>
  "declared_Options =
     zero_Options
       \<lparr>GlobalAnnServer := ''announce.syncthing.net:22026'', GlobalAnnEnabled := True,
        LocalAnnEnabled := True, LocalAnnPort := 21025,
        LocalAnnMCAddr := ''[ff32::5222]:21026'', ReconnectIntervalS := 60,
        StartBrowser := True, UPnPEnabled := True, UPnPLease := 0, UPnPRenewal := 30,
        RestartOnWakeup := True, AutoUpgradeIntervalH := 12\<rparr>"

definition example_text :: Text where
  \<comment> \<open>a system whose separator is the backslash; names already composed\<close>
  "example_text = \<lparr>Separator = CHR 0x5C, NFC = (\<lambda>s. s)\<rparr>"

definition example_store :: "nat store" where
  "example_store = [[\<lparr>FileInfo_Name = [CHR ''a'', CHR 0x5C, CHR ''b''], FileInfo_rest = 0\<rparr>]]"

definition example_slice :: header where
  "example_slice = \<lparr>arr = 0, off = 0, len = 1\<rparr>"

definition example_conn :: "nat wireFormatConnection" where
  \<comment> \<open>the next connection empties the array it is handed\<close>
  "example_conn =
     \<lparr>nxt = \<lparr>conn_Index = (\<lambda>h folder s. (h[arr s := []], None)),
              conn_IndexUpdate = (\<lambda>h folder s. (h[arr s := []], None)),
              conn_Request = (\<lambda>folder name offset sz. ([], None))\<rparr>\<rparr>"

definition declared_defaults :: "string \<Rightarrow> Configuration" where
  \<comment> \<open>a zero configuration at a location, with every declared default set\<close>
  "declared_defaults location =
     zero_Configuration
       \<lparr>Location := location, Version := 5, Options := declared_Options,
        GUI := zero_GUI\<lparr>Enabled := True, Address := ''127.0.0.1:8080''\<rparr>\<rparr>"

fun compose_e_acute :: "string \<Rightarrow> string" where
  "compose_e_acute (a # b # c # rest) =
     (if a = CHR 0x65 \<and> b = CHR 0xCC \<and> c = CHR 0x81
      then CHR 0xC3 # CHR 0xA9 # compose_e_acute rest
      else a # compose_e_acute (b # c # rest))"
| "compose_e_acute s = s"

definition windows_text :: Text where
  \<comment> \<open>the separator is the backslash; the stand-in for \<open>norm.NFC.String\<close> composes the
      letter e followed by U+0301 (bytes 65 CC 81) into U+00E9 (bytes C3 A9)\<close>
  "windows_text = \<lparr>Separator = CHR 0x5C, NFC = compose_e_acute\<rparr>"

definition decomposed_name :: string where
  \<comment> \<open>\<open>d\<close>, a backslash, and a decomposed e with acute accent\<close>
  "decomposed_name = [CHR ''d'', CHR 0x5C, CHR 0x65, CHR 0xCC, CHR 0x81]"

definition decomposed_store :: "nat store" where
  "decomposed_store = [[\<lparr>FileInfo_Name = decomposed_name, FileInfo_rest = 0\<rparr>]]"

definition echo_conn :: "nat wireFormatConnection" where
  \<comment> \<open>the next connection answers with the names it is handed, as the text of an error\<close>
  "echo_conn =
     \<lparr>nxt = \<lparr>conn_Index =
                (\<lambda>h folder s. (h, Some (OSError (concat (map FileInfo_Name (contents h s)))))),
              conn_IndexUpdate =
                (\<lambda>h folder s. (h, Some (OSError (concat (map FileInfo_Name (contents h s)))))),
              conn_Request = (\<lambda>folder name offset sz. ([], Some (OSError name)))\<rparr>\<rparr>"

definition rename_fails :: SaveIO where
  "rename_fails =
     \<lparr>create_result = None, encode_result = None, write_result = None,
      close_result = None, rename_result = Some (OSError ''permission denied'')\<rparr>"

section \<open>The migration chain runs in order\<close>

lemma Version_convertV1V2: "Version (convertV1V2 cfg) = 2"
  by (simp add: convertV1V2_def Let_def split: prod.splits)

lemma Version_convertV2V3: "Version (convertV2V3 cfg) = 3"
  by (simp add: convertV2V3_def Let_def)

lemma Version_convertV3V4: "Version (convertV3V4 cfg) = 4"
  by (simp add: convertV3V4_def Let_def)

lemma Version_convertV4V5: "Version (convertV4V5 cfg) = 5"
  by (simp add: convertV4V5_def Let_def)

lemma Version_prepare_options: "Version (prepare_options env cfg) = Version cfg"
  by (simp add: prepare_options_def Let_def)

lemma Version_prepare_folders: "Version (prepare_folders cfg) = Version cfg"
  by (simp add: prepare_folders_def Let_def)

lemma Version_prepare_usage_reporting: "Version (prepare_usage_reporting cfg) = Version cfg"
  by (simp add: prepare_usage_reporting_def Let_def)

lemma Version_prepare_password: "Version (prepare_password env cfg) = Version cfg"
  by (simp add: prepare_password_def split: list.splits option.splits)

lemma Version_prepare_devices: "Version (prepare_devices env myID cfg) = Version cfg"
  by (simp add: prepare_devices_def Let_def split: option.splits)

lemma Version_prepare_addresses: "Version (prepare_addresses cfg) = Version cfg"
  by (simp add: prepare_addresses_def)

lemmas Version_simps =
  Version_convertV1V2 Version_convertV2V3 Version_convertV3V4 Version_convertV4V5
  Version_prepare_options Version_prepare_folders Version_prepare_usage_reporting
  Version_prepare_password Version_prepare_devices Version_prepare_addresses

lemma Version_cases:
  assumes "1 \<le> Version c" and "Version c \<le> 5"
  shows "Version c = 1 \<or> Version c = 2 \<or> Version c = 3 \<or> Version c = 4 \<or> Version c = 5"
  using assms by arith

lemma migrate_steps:
  assumes "1 \<le> Version c" and "Version c \<le> 5"
  shows "migrate c = fold (\<lambda>step c. step c) (drop (nat (Version c - 1)) migration_steps) c"
  using Version_cases [OF assms]
  by (elim disjE) (simp_all add: migrate_def migration_steps_def Version_simps Let_def)

lemma Version_migrate:
  assumes "1 \<le> Version c" and "Version c \<le> 5"
  shows "Version (migrate c) = 5"
  using Version_cases [OF assms]
  by (elim disjE) (simp_all add: migrate_def Version_simps Let_def)

lemma migrate_no_step:
  assumes "Version c \<notin> {1, 2, 3, 4}"
  shows "migrate c = c"
  using assms by (simp add: migrate_def Let_def)

text \<open>
  C1. Let \<open>c\<close> be the configuration as \<open>prepare\<close> has it when it reaches the version
  tests. For a version \<open>v\<close> from 1 to 5, \<open>prepare\<close> applies to \<open>c\<close> the steps
  \<open>v \<rightarrow> v+1\<close>, ..., \<open>4 \<rightarrow> 5\<close> in this order (the list \<open>migration_steps\<close> without its
  first \<open>v - 1\<close> entries: all four steps for version 1, none for version 5) and goes
  on with the result, and the configuration it leaves has version 5.
\<close>

theorem prepare_migration_order:
  assumes "1 \<le> Version cfg" and "Version cfg \<le> 5"
  shows "prepare env myID cfg =
           prepare_addresses (prepare_devices env myID (prepare_password env
             (fold (\<lambda>step c. step c) (drop (nat (Version cfg - 1)) migration_steps)
                (prepare_usage_reporting (prepare_folders (prepare_options env cfg))))))
         \<and> Version (prepare env myID cfg) = 5"
proof -
  let ?c = "prepare_usage_reporting (prepare_folders (prepare_options env cfg))"
  have v: "Version ?c = Version cfg"
    by (simp add: Version_simps)
  have m: "migrate ?c = fold (\<lambda>step c. step c) (drop (nat (Version cfg - 1)) migration_steps) ?c"
    using migrate_steps [of ?c] assms v by simp
  have p: "prepare env myID cfg
             = prepare_addresses (prepare_devices env myID (prepare_password env (migrate ?c)))"
    by (simp add: prepare_def Let_def)
  have "Version (migrate ?c) = 5"
    using Version_migrate [of ?c] assms v by simp
  then have "Version (prepare env myID cfg) = 5"
    by (simp add: p Version_simps)
  with p m show ?thesis by simp
qed

theorem prepare_migration_order_witness:
  "1 \<le> Version example_v1 \<and> Version example_v1 \<le> 5
   \<and> prepare example_env 7 example_v1 =
       prepare_addresses (prepare_devices example_env 7 (prepare_password example_env
         (convertV4V5 (convertV3V4 (convertV2V3 (convertV1V2
            (prepare_usage_reporting (prepare_folders (prepare_options example_env example_v1)))))))))
   \<and> Version (prepare example_env 7 example_v1) = 5"
proof -
  have v: "Version example_v1 = 1"
    by (simp add: example_v1_def)
  have h1: "1 \<le> Version example_v1" and h2: "Version example_v1 \<le> 5"
    by (simp_all add: v)
  show ?thesis
    using prepare_migration_order [OF h1 h2, of example_env 7]
    by (simp add: v migration_steps_def Version_simps)
qed

section \<open>The step from version 3 to 4\<close>

lemma convertV3V4_node_same: "convertV3V4_node node = node"
  by (simp add: convertV3V4_node_def)

lemma convertV3V4_rescan:
  "map RescanIntervalS (elems (Deprecated_Repositories (convertV3V4 cfg)))
     = map (\<lambda>_. Deprecated_RescanIntervalS (Options cfg)) (elems (Deprecated_Repositories cfg))"
  by (cases "Deprecated_Repositories cfg")
     (simp_all add: convertV3V4_def Let_def elems_def comp_def)

lemma convertV3V4_nodes_kept:
  "map Folder_Deprecated_Nodes (elems (Deprecated_Repositories (convertV3V4 cfg)))
     = map Folder_Deprecated_Nodes (elems (Deprecated_Repositories cfg))"
proof -
  have "map_option (map convertV3V4_node) = (\<lambda>s. s)"
    by (rule ext) (simp add: convertV3V4_node_same [abs_def] option.map_ident)
  then show ?thesis
    by (cases "Deprecated_Repositories cfg")
       (simp_all add: convertV3V4_def Let_def elems_def comp_def)
qed

text \<open>
  C3, at a version-3 configuration with one folder and one folder-embedded device
  named \<open>laptop\<close>: after \<open>convertV3V4\<close> the folder's rescan interval is the old node-wide
  one (60), and the device record still has its name and its address list.
\<close>

theorem convertV3V4_keeps_node_name:
  "map (\<lambda>f. (RescanIntervalS f,
             map (\<lambda>n. (Deprecated_Name n, Deprecated_Addresses n))
               (elems (Folder_Deprecated_Nodes f))))
       (elems (Deprecated_Repositories (convertV3V4 example_v3)))
     = [(60, [(''laptop'', Some [''192.0.2.1:22000''])])]"
  by (simp add: convertV3V4_def convertV3V4_node_def example_v3_def example_v1_def
        example_node_def zero_Configuration_def zero_Options_def zero_Folder_def
        elems_def Let_def)

section \<open>Save\<close>

lemma Save_early_failure:
  assumes "create_result io \<noteq> None \<or> encode_result io \<noteq> None
           \<or> write_result io \<noteq> None \<or> close_result io \<noteq> None"
  shows "snd (Save io cfg) \<noteq> None
         \<and> (\<forall>a \<in> set (fst (Save io cfg)).
               a \<noteq> Log_ConfigSaved cfg \<and> a \<noteq> Rename (Location cfg @ ''.tmp'') (Location cfg))"
  using assms by (auto simp: Save_def Let_def split: option.splits)

lemma Save_success:
  assumes "create_result io = None" and "encode_result io = None"
    and "write_result io = None" and "close_result io = None" and "rename_result io = None"
  shows "Save io cfg =
           ([Create (Location cfg @ ''.tmp''), Encode cfg, Write [CHR 0x0A], Close,
             Rename (Location cfg @ ''.tmp'') (Location cfg), Log_ConfigSaved cfg], None)"
  using assms by (simp add: Save_def Let_def)

text \<open>
  C5, when everything up to the rename succeeds and the rename fails: \<open>Save\<close> logs a
  warning, publishes the "configuration saved" event all the same, and returns the
  error of the rename.
\<close>

theorem Save_publishes_after_failed_rename:
  "Save rename_fails example_v1 =
     ([Create ''config.xml.tmp'', Encode example_v1, Write [CHR 0x0A], Close,
       Rename ''config.xml.tmp'' ''config.xml'', Warnln (OSError ''permission denied''),
       Log_ConfigSaved example_v1],
      Some (OSError ''permission denied''))"
  by (simp add: Save_def rename_fails_def Let_def example_v1_def zero_Configuration_def)

section \<open>The two in-place loops\<close>

lemma swap_last_mset:
  assumes "i < cnt" and "cnt \<le> length ds"
  shows "mset (take (cnt - 1) (ds[i := ds ! (cnt - 1)])) = mset (take cnt ds) - {#ds ! i#}"
proof -
  from assms obtain m where m: "cnt = Suc m" by (cases cnt) auto
  with assms have ml: "m < length ds" and im: "i \<le> m" by auto
  have t: "take (Suc m) ds = take m ds @ [ds ! m]"
    using ml by (simp add: take_Suc_conv_app_nth)
  show ?thesis
  proof (cases "i = m")
    case True
    then show ?thesis by (simp add: m t)
  next
    case False
    with im have lt: "i < m" by simp
    then have il: "i < length (take m ds)" using ml by simp
    have "mset (take m (ds[i := ds ! m])) = mset ((take m ds)[i := ds ! m])"
      by (simp add: take_update_swap)
    also have "\<dots> = add_mset (ds ! m) (mset (take m ds) - {#take m ds ! i#})"
      using il by (rule mset_update)
    also have "\<dots> = add_mset (ds ! m) (mset (take m ds)) - {#ds ! i#}"
    proof -
      have "take m ds ! i \<in> set (take m ds)"
        using il by (rule nth_mem)
      then have "ds ! i \<in># mset (take m ds)"
        using lt by simp
      then show ?thesis
        using lt by simp
    qed
    finally show ?thesis by (simp add: m t)
  qed
qed

lemma not_known: "(ex (FolderDevice_DeviceID d) = None) = (\<not> known ex d)"
  by (simp add: known_def)

lemma ensureExistingDevices_loop_mset:
  assumes "i \<le> cnt" and "cnt \<le> length ds" and "\<forall>k<i. known ex (ds ! k)"
  shows "mset (take (snd (ensureExistingDevices_loop ex ds i cnt))
                 (fst (ensureExistingDevices_loop ex ds i cnt)))
           = filter_mset (known ex) (mset (take cnt ds))"
  using assms
proof (induction ex ds i cnt rule: ensureExistingDevices_loop.induct)
  case (1 ex ds i cnt)
  show ?case
  proof (cases "i < cnt")
    case False
    have r: "ensureExistingDevices_loop ex ds i cnt = (ds, cnt)"
      using False by (simp add: ensureExistingDevices_loop.simps [of ex ds i cnt])
    from False "1.prems" have eq: "i = cnt" by simp
    have "\<forall>d \<in># mset (take cnt ds). known ex d"
      using "1.prems" eq by (auto simp: in_set_conv_nth)
    then have "filter_mset (known ex) (mset (take cnt ds)) = mset (take cnt ds)"
      by (simp add: filter_mset_eq_conv)
    then show ?thesis
      unfolding r by simp
  next
    case lt: True
    show ?thesis
    proof (cases "known ex (ds ! i)")
      case True
      have step: "ensureExistingDevices_loop ex ds i cnt
                    = ensureExistingDevices_loop ex ds (i + 1) cnt"
        using True lt
        by (simp add: ensureExistingDevices_loop.simps [of ex ds i cnt] not_known)
      have a: "i + 1 \<le> cnt" using lt by simp
      have c: "\<forall>k<i + 1. known ex (ds ! k)"
        using "1.prems"(3) True by (auto simp: less_Suc_eq)
      show ?thesis
        unfolding step using True
        by (intro "1.IH"(2) [OF lt _ a "1.prems"(2) c]) (simp add: not_known)
    next
      case False
      let ?ds = "ds[i := ds ! (cnt - 1)]"
      have step: "ensureExistingDevices_loop ex ds i cnt
                    = ensureExistingDevices_loop ex ?ds i (cnt - 1)"
        using False lt
        by (simp add: ensureExistingDevices_loop.simps [of ex ds i cnt] not_known)
      have a: "i \<le> cnt - 1" and b: "cnt - 1 \<le> length ?ds" and c: "\<forall>k<i. known ex (?ds ! k)"
        using lt "1.prems" by auto
      have "mset (take (cnt - 1) ?ds) = mset (take cnt ds) - {#ds ! i#}"
        using lt "1.prems"(2) by (rule swap_last_mset)
      then have e: "filter_mset (known ex) (mset (take (cnt - 1) ?ds))
                   = filter_mset (known ex) (mset (take cnt ds))"
        using False by simp
      show ?thesis
        unfolding step e [symmetric] using False
        by (intro "1.IH"(1) [OF lt _ a b c]) (simp add: not_known)
    qed
  qed
qed

lemma ensureExistingDevices_mset:
  "mset (elems (ensureExistingDevices devices ex)) = filter_mset (known ex) (mset (elems devices))"
proof (cases devices)
  case None
  then show ?thesis by (simp add: ensureExistingDevices_def elems_def)
next
  case (Some ds)
  have "mset (take (snd (ensureExistingDevices_loop ex ds 0 (length ds)))
                 (fst (ensureExistingDevices_loop ex ds 0 (length ds))))
          = filter_mset (known ex) (mset (take (length ds) ds))"
    by (rule ensureExistingDevices_loop_mset) simp_all
  with Some show ?thesis
    by (simp add: ensureExistingDevices_def elems_def case_prod_beta)
qed

lemma swap_last_ids:
  assumes "i < cnt" and "cnt \<le> length ds"
    and "FolderDevice_DeviceID (ds ! i) \<in> set (ids (take i ds))"
  shows "set (ids (take (cnt - 1) (ds[i := ds ! (cnt - 1)]))) = set (ids (take cnt ds))"
proof -
  let ?ds = "ds[i := ds ! (cnt - 1)]"
  have m: "mset (take (cnt - 1) ?ds) = mset (take cnt ds) - {#ds ! i#}"
    using assms(1,2) by (rule swap_last_mset)
  have sub: "set (take (cnt - 1) ?ds) \<subseteq> set (take cnt ds)"
  proof
    fix x assume "x \<in> set (take (cnt - 1) ?ds)"
    then have "x \<in># mset (take cnt ds) - {#ds ! i#}"
      using m by (metis set_mset_mset)
    then have "x \<in># mset (take cnt ds)"
      by (rule in_diffD)
    then show "x \<in> set (take cnt ds)" by simp
  qed
  have "i \<le> cnt - 1"
    using assms(1) by simp
  then have low: "take i (take (cnt - 1) ?ds) = take i ds"
    by (simp add: min_absorb1)
  have "set (take i ds) \<subseteq> set (take (cnt - 1) ?ds)"
    using set_take_subset [of i "take (cnt - 1) ?ds"] low by simp
  then have old: "FolderDevice_DeviceID (ds ! i) \<in> set (ids (take (cnt - 1) ?ds))"
    using assms(3) by auto
  have sup: "set (ids (take cnt ds)) \<subseteq> set (ids (take (cnt - 1) ?ds))"
  proof
    fix a assume "a \<in> set (ids (take cnt ds))"
    then obtain x where x: "x \<in> set (take cnt ds)" and a: "a = FolderDevice_DeviceID x"
      by auto
    show "a \<in> set (ids (take (cnt - 1) ?ds))"
    proof (cases "x = ds ! i")
      case True
      with old a show ?thesis by simp
    next
      case False
      with x have "x \<in># mset (take cnt ds) - {#ds ! i#}"
        by (simp add: in_diff_count)
      then have "x \<in> set (take (cnt - 1) ?ds)"
        using m by (metis set_mset_mset)
      with a show ?thesis by auto
    qed
  qed
  from sub sup show ?thesis by auto
qed

lemma ensureNoDuplicates_loop_distinct:
  assumes "i \<le> cnt" and "cnt \<le> length ds"
    and "dom seen = set (ids (take i ds))" and "distinct (ids (take i ds))"
  shows "distinct (ids (take (snd (ensureNoDuplicates_loop seen ds i cnt))
                          (fst (ensureNoDuplicates_loop seen ds i cnt))))
         \<and> set (ids (take (snd (ensureNoDuplicates_loop seen ds i cnt))
                          (fst (ensureNoDuplicates_loop seen ds i cnt))))
             = set (ids (take cnt ds))"
  using assms
proof (induction seen ds i cnt rule: ensureNoDuplicates_loop.induct)
  case (1 seen ds i cnt)
  let ?id = "FolderDevice_DeviceID (ds ! i)"
  show ?case
  proof (cases "i < cnt")
    case False
    have r: "ensureNoDuplicates_loop seen ds i cnt = (ds, cnt)"
      using False by (simp add: ensureNoDuplicates_loop.simps [of seen ds i cnt])
    from False "1.prems" have eq: "i = cnt" by simp
    show ?thesis
      unfolding r using "1.prems"(4) eq by simp
  next
    case lt: True
    then have il: "i < length ds" using "1.prems" by simp
    show ?thesis
    proof (cases "seen ?id = None")
      case True
      have notin: "?id \<notin> set (ids (take i ds))"
        using True "1.prems"(3) by (metis domIff)
      have t: "take (Suc i) ds = take i ds @ [ds ! i]"
        using il by (simp add: take_Suc_conv_app_nth)
      have a: "i + 1 \<le> cnt" using lt by simp
      have c: "dom (seen(?id \<mapsto> True)) = set (ids (take (i + 1) ds))"
        using "1.prems"(3) by (simp add: t)
      have d: "distinct (ids (take (i + 1) ds))"
        using "1.prems"(4) notin by (simp add: t)
      have step: "ensureNoDuplicates_loop seen ds i cnt
                    = ensureNoDuplicates_loop (seen(?id \<mapsto> True)) ds (i + 1) cnt"
        using True lt by (simp add: ensureNoDuplicates_loop.simps [of seen ds i cnt] Let_def)
      show ?thesis
        unfolding step using True by (intro "1.IH"(2) [OF lt refl _ a "1.prems"(2) c d]) simp
    next
      case False
      let ?ds = "ds[i := ds ! (cnt - 1)]"
      have isin: "?id \<in> set (ids (take i ds))"
        using False "1.prems"(3) by (metis domIff)
      have a: "i \<le> cnt - 1" and b: "cnt - 1 \<le> length ?ds"
        using lt "1.prems" by auto
      have c: "dom seen = set (ids (take i ?ds))" and d: "distinct (ids (take i ?ds))"
        using "1.prems"(3,4) by simp_all
      have e: "set (ids (take (cnt - 1) ?ds)) = set (ids (take cnt ds))"
        using lt "1.prems"(2) isin by (rule swap_last_ids)
      have step: "ensureNoDuplicates_loop seen ds i cnt
                    = ensureNoDuplicates_loop seen ?ds i (cnt - 1)"
        using False lt
        by (simp add: ensureNoDuplicates_loop.simps [of seen ds i cnt] Let_def del: not_None_eq)
      show ?thesis
        unfolding step e [symmetric] using False by (intro "1.IH"(1) [OF lt refl _ a b c d]) simp
    qed
  qed
qed

lemma ensureNoDuplicates_ids:
  "distinct (ids (elems (ensureNoDuplicates devices)))
   \<and> set (ids (elems (ensureNoDuplicates devices))) = set (ids (elems devices))"
proof (cases devices)
  case None
  then show ?thesis by (simp add: ensureNoDuplicates_def elems_def)
next
  case (Some ds)
  have "distinct (ids (take (snd (ensureNoDuplicates_loop Map.empty ds 0 (length ds)))
                          (fst (ensureNoDuplicates_loop Map.empty ds 0 (length ds)))))
         \<and> set (ids (take (snd (ensureNoDuplicates_loop Map.empty ds 0 (length ds)))
                          (fst (ensureNoDuplicates_loop Map.empty ds 0 (length ds)))))
             = set (ids (take (length ds) ds))"
    by (rule ensureNoDuplicates_loop_distinct) simp_all
  with Some show ?thesis
    by (simp add: ensureNoDuplicates_def elems_def case_prod_beta)
qed

section \<open>Lemmas on the normalizer\<close>

lemma elems_map_option: "f [] = [] \<Longrightarrow> elems (map_option f s) = f (elems s)"
  by (cases s) (simp_all add: elems_def)

lemma elems_map_option_map: "elems (map_option (map f) s) = map f (elems s)"
  by (rule elems_map_option) simp

lemma map_update_same:
  assumes "f x = f (xs ! i)"
  shows "map f (xs[i := x]) = map f xs"
proof (cases "i < length xs")
  case True
  with assms show ?thesis by (simp add: map_update list_update_same_conv)
next
  case False
  then show ?thesis by (simp add: list_update_beyond)
qed

subsection \<open>checkFolders\<close>

lemma set_Invalid_devices:
  "length (set_Invalid p v fs) = length fs
   \<and> map Folder_Devices (set_Invalid p v fs) = map Folder_Devices fs"
  by (simp add: set_Invalid_def map_update_same)

lemma set_ID_devices:
  "length (set_ID p v fs) = length fs
   \<and> map Folder_Devices (set_ID p v fs) = map Folder_Devices fs"
  by (simp add: set_ID_def map_update_same)

lemma checkFolder_devices:
  "length (fst (checkFolder (fs, seen, n) i)) = length fs
   \<and> map Folder_Devices (fst (checkFolder (fs, seen, n) i)) = map Folder_Devices fs"
  by (simp add: checkFolder_def Let_def set_Invalid_devices set_ID_devices
        split: option.splits)

lemma checkFolders_foldl_devices:
  "length (fst (foldl checkFolder st is)) = length (fst st)
   \<and> map Folder_Devices (fst (foldl checkFolder st is)) = map Folder_Devices (fst st)"
proof (induction "is" arbitrary: st)
  case Nil
  show ?case by simp
next
  case (Cons i "is")
  obtain fs seen n where st: "st = (fs, seen, n)" by (cases st) auto
  show ?case
    using Cons.IH [of "checkFolder st i"] checkFolder_devices [of fs seen n i]
    by (simp add: st)
qed

lemma checkFolders_devices:
  "length (checkFolders fs) = length fs
   \<and> map Folder_Devices (checkFolders fs) = map Folder_Devices fs"
  using checkFolders_foldl_devices [of "(fs, Map.empty, 0)" "[0..<length fs]"]
  by (simp add: checkFolders_def)

subsection \<open>The device pass\<close>

lemma dom_existingDevices_foldl:
  "dom (foldl (\<lambda>m device. m(DeviceID device \<mapsto> True)) m ds) = dom m \<union> DeviceID ` set ds"
  by (induction ds arbitrary: m) auto

lemma dom_existingDevices_of:
  "dom (existingDevices_of myID ds) = insert myID (DeviceID ` set ds)"
  by (simp add: existingDevices_of_def dom_existingDevices_foldl)

lemma GetDeviceConfiguration_None:
  "GetDeviceConfiguration cfg deviceID = None \<longleftrightarrow> deviceID \<notin> set (root_ids cfg)"
proof -
  let ?ds = "elems (Devices cfg)"
  have "filter (\<lambda>i. DeviceID (?ds ! i) = deviceID) [0..<length ?ds] = []
          \<longleftrightarrow> deviceID \<notin> DeviceID ` set ?ds"
    by (force simp: filter_empty_conv in_set_conv_nth)
  then show ?thesis
    unfolding GetDeviceConfiguration_def root_ids_def
    by (cases "filter (\<lambda>i. DeviceID (?ds ! i) = deviceID) [0..<length ?ds]") simp_all
qed

lemma ensureDevicePresent_ids:
  "set (ids (elems (ensureDevicePresent d myID))) = insert myID (set (ids (elems d)))"
  by (cases d) (force simp: ensureDevicePresent_def append1_def elems_def list_ex_iff)+

lemma ensureExistingDevices_ids:
  "set (ids (elems (ensureExistingDevices d ex))) = set (ids (elems d)) \<inter> dom ex"
proof -
  have "set_mset (mset (elems (ensureExistingDevices d ex)))
          = set_mset (filter_mset (known ex) (mset (elems d)))"
    by (simp only: ensureExistingDevices_mset)
  then have "set (elems (ensureExistingDevices d ex)) = {x \<in> set (elems d). known ex x}"
    by simp
  then show ?thesis
    by (auto simp: known_def)
qed

lemma prepare_folder_devices_ids:
  "distinct (member_ids (prepare_folder_devices myID ex f))
   \<and> set (member_ids (prepare_folder_devices myID ex f)) = insert myID (set (member_ids f)) \<inter> dom ex"
proof -
  let ?d = "ensureNoDuplicates (ensureExistingDevices (ensureDevicePresent (Folder_Devices f) myID) ex)"
  have m: "member_ids (prepare_folder_devices myID ex f)
             = ids (sort_key FolderDevice_DeviceID (elems ?d))"
    by (simp add: member_ids_def prepare_folder_devices_def Let_def sortFolderDevices_def
          elems_map_option)
  let ?p = "ensureDevicePresent (Folder_Devices f) myID"
  have d: "distinct (ids (elems ?d))"
    using ensureNoDuplicates_ids [of "ensureExistingDevices ?p ex"] by simp
  have "set (ids (elems ?d)) = set (ids (elems (ensureExistingDevices ?p ex)))"
    using ensureNoDuplicates_ids [of "ensureExistingDevices ?p ex"] by simp
  also have "\<dots> = set (ids (elems ?p)) \<inter> dom ex"
    by (rule ensureExistingDevices_ids)
  also have "set (ids (elems ?p)) = insert myID (set (member_ids f))"
    unfolding member_ids_def by (rule ensureDevicePresent_ids)
  finally have s: "set (ids (elems ?d)) = insert myID (set (member_ids f)) \<inter> dom ex" .
  from d have "distinct (ids (sort_key FolderDevice_DeviceID (elems ?d)))"
    by (simp add: distinct_map)
  moreover from s have "set (ids (sort_key FolderDevice_DeviceID (elems ?d)))
                          = insert myID (set (member_ids f)) \<inter> dom ex"
    by simp
  ultimately show ?thesis
    by (simp only: m) 
qed

lemma Folders_prepare_devices:
  "elems (Folders (prepare_devices env myID cfg))
     = map (prepare_folder_devices myID (existingDevices_of myID (elems (Devices cfg))))
         (elems (Folders cfg))"
  by (simp add: prepare_devices_def Let_def elems_map_option_map split: option.splits)

lemma root_ids_prepare_devices:
  "mset (root_ids (prepare_devices env myID cfg))
     = mset (root_ids cfg) + (if myID \<in> set (root_ids cfg) then {#} else {#myID#})"
proof (cases "GetDeviceConfiguration cfg myID")
  case None
  then have "myID \<notin> set (root_ids cfg)"
    by (simp add: GetDeviceConfiguration_None)
  with None show ?thesis
    by (simp add: prepare_devices_def Let_def root_ids_def sortDevices_def elems_map_option
          append1_def elems_def [of "Some _"])
next
  case (Some i)
  then have "myID \<in> set (root_ids cfg)"
    using GetDeviceConfiguration_None [of cfg myID] by simp
  with Some show ?thesis
    by (simp add: prepare_devices_def Let_def root_ids_def sortDevices_def elems_map_option)
qed

lemma root_ids_prepare_addresses: "root_ids (prepare_addresses cfg) = root_ids cfg"
  by (simp add: prepare_addresses_def root_ids_def elems_map_option_map comp_def)

lemma Folders_prepare_addresses: "Folders (prepare_addresses cfg) = Folders cfg"
  by (simp add: prepare_addresses_def)

lemma prepare_eq:
  "prepare env myID cfg = prepare_addresses (prepare_devices env myID (before_devices env cfg))"
  by (simp add: prepare_def before_devices_def Let_def)

lemma set_root_ids_prepare:
  "set (root_ids (prepare env myID cfg)) = dom (existingDevices_of myID (elems (Devices (before_devices env cfg))))"
proof -
  have "set_mset (mset (root_ids (prepare env myID cfg)))
          = insert myID (set (root_ids (before_devices env cfg)))"
    by (simp only: prepare_eq root_ids_prepare_addresses root_ids_prepare_devices) auto
  then show ?thesis
    by (simp add: dom_existingDevices_of root_ids_def)
qed

lemma Folders_prepare:
  "elems (Folders (prepare env myID cfg))
     = map (prepare_folder_devices myID
              (existingDevices_of myID (elems (Devices (before_devices env cfg)))))
         (elems (Folders (before_devices env cfg)))"
  by (simp add: prepare_eq Folders_prepare_addresses Folders_prepare_devices)

lemma Devices_before_devices:
  assumes "Version cfg \<notin> {1, 2, 3, 4}"
  shows "Devices (before_devices env cfg) = Devices cfg"
proof -
  let ?c = "prepare_usage_reporting (prepare_folders (prepare_options env cfg))"
  have "Version ?c \<notin> {1, 2, 3, 4}"
    using assms by (simp add: Version_simps)
  then have "migrate ?c = ?c"
    by (rule migrate_no_step)
  then have "before_devices env cfg = prepare_password env ?c"
    by (simp add: before_devices_def)
  moreover have "Devices (prepare_password env ?c) = Devices ?c"
    by (simp add: prepare_password_def split: list.splits option.splits)
  moreover have "Devices ?c = Devices cfg"
    by (simp add: prepare_usage_reporting_def prepare_folders_def prepare_options_def Let_def)
  ultimately show ?thesis by simp
qed

lemma Folders_before_devices:
  assumes "Version cfg \<notin> {1, 2, 3, 4}"
  shows "elems (Folders (before_devices env cfg)) = checkFolders (elems (Folders cfg))"
proof -
  let ?c = "prepare_usage_reporting (prepare_folders (prepare_options env cfg))"
  have "Version ?c \<notin> {1, 2, 3, 4}"
    using assms by (simp add: Version_simps)
  then have "migrate ?c = ?c"
    by (rule migrate_no_step)
  then have "before_devices env cfg = prepare_password env ?c"
    by (simp add: before_devices_def)
  moreover have "Folders (prepare_password env ?c) = Folders ?c"
    by (simp add: prepare_password_def split: list.splits option.splits)
  moreover have "Folders ?c = Folders (prepare_folders (prepare_options env cfg))"
    by (simp add: prepare_usage_reporting_def Let_def)
  moreover have "elems (Folders (prepare_folders (prepare_options env cfg)))
                   = checkFolders (elems (Folders cfg))"
    by (cases "Folders cfg")
       (simp_all add: prepare_folders_def prepare_options_def Let_def elems_def checkFolders_def)
  ultimately show ?thesis by simp
qed

lemma member_ids_before_devices:
  assumes "Version cfg \<notin> {1, 2, 3, 4}"
  shows "map member_ids (elems (Folders (before_devices env cfg)))
           = map member_ids (elems (Folders cfg))"
proof -
  have "map Folder_Devices (checkFolders (elems (Folders cfg)))
          = map Folder_Devices (elems (Folders cfg))"
    by (simp add: checkFolders_devices)
  then have "map (\<lambda>s. ids (elems s)) (map Folder_Devices (checkFolders (elems (Folders cfg))))
          = map (\<lambda>s. ids (elems s)) (map Folder_Devices (elems (Folders cfg)))"
    by (rule arg_cong)
  then show ?thesis
    by (simp add: Folders_before_devices [OF assms] member_ids_def [abs_def] comp_def)
qed


lemma itoa_1: "itoa (Suc 0) = ''1''"
  by (simp add: itoa.simps [of "Suc 0"])

lemma itoa_2: "itoa (Suc (Suc 0)) = ''2''"
  by (simp add: itoa.simps [of "Suc (Suc 0)"])

lemma checkFolders_two_unnamed:
  assumes "Path f1 \<noteq> []" and "Path f2 \<noteq> []" and "ID f1 = []" and "ID f2 = []"
  shows "checkFolders [f1, f2]
           = [f1\<lparr>ID := ''default~1'', Invalid := ''duplicate folder ID''\<rparr>,
              f2\<lparr>ID := ''default~2'', Invalid := ''duplicate folder ID''\<rparr>]"
  using assms
  by (simp add: checkFolders_def checkFolder_def set_ID_def set_Invalid_def Let_def
        Sprintf_s_tilde_d_def itoa_1 itoa_2)

lemma prepare_folder_devices_fields:
  "ID (prepare_folder_devices myID ex f) = ID f
   \<and> Invalid (prepare_folder_devices myID ex f) = Invalid f
   \<and> Path (prepare_folder_devices myID ex f) = Path f"
  by (simp add: prepare_folder_devices_def Let_def)

lemma Folders_prepare_fields:
  assumes "Version cfg \<notin> {1, 2, 3, 4}"
  shows "map ID (elems (Folders (prepare env myID cfg))) = map ID (checkFolders (elems (Folders cfg)))
       \<and> map Invalid (elems (Folders (prepare env myID cfg)))
           = map Invalid (checkFolders (elems (Folders cfg)))
       \<and> map Path (elems (Folders (prepare env myID cfg)))
           = map Path (checkFolders (elems (Folders cfg)))"
  by (simp add: Folders_prepare Folders_before_devices [OF assms] comp_def
        prepare_folder_devices_fields)

lemma length_Folders_prepare:
  assumes "Version cfg \<notin> {1, 2, 3, 4}"
  shows "length (elems (Folders (prepare env myID cfg))) = length (elems (Folders cfg))"
  by (simp add: Folders_prepare Folders_before_devices [OF assms] checkFolders_devices)

lemma example_unnamed_facts:
  "Version example_unnamed \<notin> {1, 2, 3, 4}"
  "elems (Folders example_unnamed) = [zero_Folder\<lparr>Path := ''/a''\<rparr>, zero_Folder\<lparr>Path := ''/b''\<rparr>]"
  "Path (zero_Folder\<lparr>Path := ''/a''\<rparr>) \<noteq> []" "Path (zero_Folder\<lparr>Path := ''/b''\<rparr>) \<noteq> []"
  "ID (zero_Folder\<lparr>Path := ''/a''\<rparr>) = []" "ID (zero_Folder\<lparr>Path := ''/b''\<rparr>) = []"
  by (simp_all add: example_unnamed_def zero_Configuration_def zero_Folder_def elems_def)

lemma example_v5_facts:
  "Version example_v5 \<notin> {1, 2, 3, 4}" "length (elems (Folders example_v5)) = 1"
  "root_ids example_v5 = [2]"
  by (simp_all add: example_v5_def zero_Configuration_def elems_def root_ids_def example_device_def)



lemma root_ids_before_devices:
  assumes "Version cfg \<notin> {1, 2, 3, 4}"
  shows "root_ids (before_devices env cfg) = root_ids cfg"
  using Devices_before_devices [OF assms, of env] by (simp add: root_ids_def)

section \<open>Membership edges after normalization\<close>

text \<open>
  C7. After \<open>prepare\<close>, in every folder each membership edge names a device of the
  root device list and no two edges name the same device. The devices a folder's
  edges name afterwards are the devices they named when the device pass started,
  together with the local device, that are in the root device list: the edges to
  devices outside it are gone.
\<close>

theorem prepare_membership_edges:
  "(\<forall>f \<in> set (elems (Folders (prepare env myID cfg))).
       set (member_ids f) \<subseteq> set (root_ids (prepare env myID cfg)) \<and> distinct (member_ids f))
   \<and> map (\<lambda>f. set (member_ids f)) (elems (Folders (prepare env myID cfg)))
       = map (\<lambda>f. insert myID (set (member_ids f)) \<inter> set (root_ids (prepare env myID cfg)))
           (elems (Folders (before_devices env cfg)))"
proof -
  let ?ex = "existingDevices_of myID (elems (Devices (before_devices env cfg)))"
  have r: "set (root_ids (prepare env myID cfg)) = dom ?ex"
    by (rule set_root_ids_prepare)
  have F: "elems (Folders (prepare env myID cfg))
             = map (prepare_folder_devices myID ?ex) (elems (Folders (before_devices env cfg)))"
    by (rule Folders_prepare)
  have one: "set (member_ids (prepare_folder_devices myID ?ex g)) \<subseteq> dom ?ex
             \<and> distinct (member_ids (prepare_folder_devices myID ?ex g))" for g
    using prepare_folder_devices_ids [of myID ?ex g] by simp
  have two: "set (member_ids (prepare_folder_devices myID ?ex g))
               = insert myID (set (member_ids g)) \<inter> dom ?ex" for g
    using prepare_folder_devices_ids [of myID ?ex g] by simp
  show ?thesis
    unfolding r F using one two by (simp add: comp_def)
qed

theorem prepare_membership_edges_witness:
  "map (\<lambda>f. set (member_ids f) \<subseteq> set (root_ids (prepare example_env 7 example_v5))
             \<and> distinct (member_ids f))
     (elems (Folders (prepare example_env 7 example_v5))) = [True]
   \<and> map (\<lambda>f. set (member_ids f)) (elems (Folders (prepare example_env 7 example_v5)))
       = [{2, 7}]"
proof -
  have "length (elems (Folders (prepare example_env 7 example_v5))) = 1"
    by (simp add: length_Folders_prepare [OF example_v5_facts(1)] example_v5_facts(2))
  then obtain f where f: "elems (Folders (prepare example_env 7 example_v5)) = [f]"
    by (auto simp: length_Suc_conv)
  have "set (root_ids (prepare example_env 7 example_v5))
          = insert 7 (set (root_ids (before_devices example_env example_v5)))"
    unfolding set_root_ids_prepare dom_existingDevices_of by (simp add: root_ids_def)
  then have r: "set (root_ids (prepare example_env 7 example_v5)) = {2, 7}"
    by (auto simp: root_ids_before_devices [OF example_v5_facts(1)] example_v5_facts(3))
  have "map member_ids (elems (Folders example_v5)) = [[2, 9, 2]]"
    by (simp add: example_v5_def zero_Configuration_def zero_Folder_def elems_def
          member_ids_def example_edge_def)
  then have "map member_ids (elems (Folders (before_devices example_env example_v5)))
               = [[2, 9, 2]]"
    by (simp add: member_ids_before_devices [OF example_v5_facts(1)])
  then have "map set (map member_ids (elems (Folders (before_devices example_env example_v5))))
               = [{2, 9}]"
    by auto
  then have b: "map (\<lambda>f. set (member_ids f))
                  (elems (Folders (before_devices example_env example_v5))) = [{2, 9}]"
    by (simp add: comp_def)
  from b obtain g where g: "elems (Folders (before_devices example_env example_v5)) = [g]"
    and gs: "set (member_ids g) = {2, 9}"
    by (auto simp: map_eq_Cons_conv)
  have "insert 7 {2, 9} \<inter> {2, 7} = {2, 7 :: DeviceID}"
    by auto
  then show ?thesis
    using prepare_membership_edges [of example_env 7 example_v5]
    by (auto simp: f g gs r)
qed

section \<open>The local identity after normalization\<close>




section \<open>Two folders without identifier\<close>

text \<open>
  C4 fails on the identifiers: the folder recorded first is renamed as well, so the
  two folders end as \<open>default~1\<close> and \<open>default~2\<close> and none is called \<open>default\<close>.
\<close>

theorem two_unnamed_folders_not_default:
  "map ID (elems (Folders (prepare example_env 7 example_unnamed))) = [''default~1'', ''default~2'']
   \<and> ''default'' \<notin> set (map ID (elems (Folders (prepare example_env 7 example_unnamed))))"
proof -
  have "map ID (elems (Folders (prepare example_env 7 example_unnamed)))
          = map ID (checkFolders (elems (Folders example_unnamed)))"
    using Folders_prepare_fields [OF example_unnamed_facts(1)] by simp
  also have "\<dots> = [''default~1'', ''default~2'']"
    by (simp add: example_unnamed_facts(2) checkFolders_two_unnamed [OF example_unnamed_facts(3-6)])
  finally show ?thesis by simp
qed

text \<open>
  C4, amended. For a configuration to which no migration step applies and whose two
  folders both have a path and no identifier, \<open>prepare\<close> names the first folder
  \<open>default~1\<close> and the second \<open>default~2\<close>, marks both invalid as duplicates, and
  keeps both, with their paths, in the document.
\<close>

theorem prepare_two_unnamed_folders:
  assumes "Version cfg \<notin> {1, 2, 3, 4}" and "elems (Folders cfg) = [f1, f2]"
    and "Path f1 \<noteq> []" and "Path f2 \<noteq> []" and "ID f1 = []" and "ID f2 = []"
  shows "map ID (elems (Folders (prepare env myID cfg))) = [''default~1'', ''default~2'']
       \<and> map Invalid (elems (Folders (prepare env myID cfg)))
           = [''duplicate folder ID'', ''duplicate folder ID'']
       \<and> map Path (elems (Folders (prepare env myID cfg))) = [Path f1, Path f2]"
  using Folders_prepare_fields [OF assms(1), of env myID]
    checkFolders_two_unnamed [OF assms(3-6)] assms(2)
  by simp

theorem prepare_two_unnamed_folders_witness:
  "Version example_unnamed \<notin> {1, 2, 3, 4}
   \<and> elems (Folders example_unnamed) = [zero_Folder\<lparr>Path := ''/a''\<rparr>, zero_Folder\<lparr>Path := ''/b''\<rparr>]
   \<and> map ID (elems (Folders (prepare example_env 7 example_unnamed))) = [''default~1'', ''default~2'']
   \<and> map Invalid (elems (Folders (prepare example_env 7 example_unnamed)))
       = [''duplicate folder ID'', ''duplicate folder ID'']
   \<and> map Path (elems (Folders (prepare example_env 7 example_unnamed))) = [''/a'', ''/b'']"
  using prepare_two_unnamed_folders [OF example_unnamed_facts, of example_env 7]
    example_unnamed_facts(1,2)
  by simp


section \<open>Default injection with the declared tags\<close>

text \<open>
  With the tags that the three structs declare, every numeric default parses: each
  of the \<open>setDefaults\<close> calls of \<open>New\<close> and \<open>Load\<close> sets all its defaults and returns
  no error. On an integer field whose default does not parse, \<open>setDefaults\<close> returns
  the error of \<open>strconv.ParseInt\<close> and leaves that field and the ones after it alone.
\<close>

lemma ParseInt_declared:
  "ParseInt ''5'' = Inr 5" "ParseInt ''21025'' = Inr 21025" "ParseInt ''60'' = Inr 60"
  "ParseInt ''0'' = Inr 0" "ParseInt ''30'' = Inr 30" "ParseInt ''12'' = Inr 12"
  by (simp_all add: ParseInt_def ParseUint_def digit_of_def)

lemma setDefaults_Configuration_declared:
  "setDefaults Configuration_defaults
     (fields_Configuration (zero_Configuration\<lparr>Location := location\<rparr>))
   = Done (fields_Configuration (zero_Configuration\<lparr>Location := location, Version := 5\<rparr>),
           None)"
  by (simp add: Configuration_defaults_def fields_Configuration_def zero_Configuration_def
        ParseInt_declared)

lemma setDefaults_Options_declared:
  "setDefaults Options_defaults (fields_Options zero_Options)
     = Done (fields_Options declared_Options, None)"
  by (simp add: Options_defaults_def fields_Options_def zero_Options_def declared_Options_def
        ParseInt_declared)

lemma setDefaults_GUI_declared:
  "setDefaults GUI_defaults (fields_GUI zero_GUI)
     = Done (fields_GUI (zero_GUI\<lparr>Enabled := True, Address := ''127.0.0.1:8080''\<rparr>), None)"
  by (simp add: GUI_defaults_def fields_GUI_def zero_GUI_def)

lemma setDefaults_parse_error:
  assumes "tg name \<noteq> []" and "ParseInt (tg name) = Inl e"
  shows "setDefaults tg ((name, IntV i) # rest) = Done ((name, IntV i) # rest, Some e)"
  using assms by (simp add: Let_def)

lemma assign_fields:
  "assign_Options (fields_Options opt) = opt" "assign_GUI (fields_GUI g) = g"
  "assign_Configuration (fields_Configuration c) c' = c'\<lparr>Location := Location c, Version := Version c\<rparr>"
  by (simp_all add: assign_Options_def fields_Options_def assign_GUI_def fields_GUI_def
        assign_Configuration_def fields_Configuration_def
        string_of_def int_of_def bool_of_def strings_of_def)

lemma inject_defaults_declared:
  "inject_defaults (declared host bcrypt opn dec) (zero_Configuration\<lparr>Location := location\<rparr>)
     = Done (declared_defaults location)"
proof -
  let ?env = "declared host bcrypt opn dec"
  have t: "Configuration_tags ?env = Configuration_defaults"
    "Options_tags ?env = Options_defaults" "GUI_tags ?env = GUI_defaults"
    by (simp_all add: declared_def)
  have z: "Options zero_Configuration = zero_Options" "GUI zero_Configuration = zero_GUI"
    by (simp_all add: zero_Configuration_def)
  show ?thesis
    by (simp add: inject_defaults_def t z setDefaults_Configuration_declared assign_fields
          setDefaults_Options_declared setDefaults_GUI_declared Let_def declared_defaults_def)
qed

lemma New_declared:
  "New (declared host bcrypt opn dec) location myID
     = Done (prepare (declared host bcrypt opn dec) myID (declared_defaults location))"
  by (simp add: New_def inject_defaults_declared)

section \<open>Changes that require a restart\<close>

lemma dom_DeviceMap_foldl:
  "dom (foldl (\<lambda>m n. m(DeviceID n \<mapsto> n)) m ds) = dom m \<union> DeviceID ` set ds"
  by (induction ds arbitrary: m) auto

lemma dom_DeviceMap: "dom (DeviceMap cfg) = set (root_ids cfg)"
  by (simp add: DeviceMap_def dom_DeviceMap_foldl root_ids_def)

lemma root_ids_rename:
  "root_ids (cfg\<lparr>Devices := map_option (\<lambda>ds. ds[i := (ds ! i)\<lparr>Name := n\<rparr>]) (Devices cfg)\<rparr>)
     = root_ids cfg"
  by (simp add: root_ids_def elems_map_option map_update_same)

lemma elems_Some: "elems (Some xs) = xs"
  by (simp add: elems_def)

lemma ChangeRequiresRestart_folder_count:
  "length (elems (Folders from)) \<noteq> length (elems (Folders to)) \<Longrightarrow> ChangeRequiresRestart from to"
  by (simp add: ChangeRequiresRestart_def)


text \<open>
  C8. \<open>ChangeRequiresRestart\<close> is a function of its two arguments. It is true when
  the second configuration is the first without one of its folders, and false when
  the second is the first with another display name for one device.
\<close>

theorem ChangeRequiresRestart_folder_removed_device_renamed:
  "(i < length (elems (Folders from)) \<longrightarrow>
      ChangeRequiresRestart from
        (from\<lparr>Folders := Some (take i (elems (Folders from)) @ drop (Suc i) (elems (Folders from)))\<rparr>))
   \<and> \<not> ChangeRequiresRestart from
        (from\<lparr>Devices := map_option (\<lambda>ds. ds[j := (ds ! j)\<lparr>Name := n\<rparr>]) (Devices from)\<rparr>)"
proof -
  let ?to = "from\<lparr>Devices := map_option (\<lambda>ds. ds[j := (ds ! j)\<lparr>Name := n\<rparr>]) (Devices from)\<rparr>"
  have f: "FolderMap ?to = FolderMap from"
    by (simp add: FolderMap_def)
  have "dom (DeviceMap ?to) = set (root_ids from)"
    by (simp only: dom_DeviceMap root_ids_rename)
  then have "\<forall>d \<in> set (root_ids from). DeviceMap ?to d \<noteq> None"
    by (auto simp: dom_def)
  then have d: "\<not> list_ex (\<lambda>deviceID. DeviceMap ?to deviceID = None)
                   (remdups (map DeviceID (elems (Devices from))))"
    by (simp add: list_ex_iff root_ids_def)
  have 2: "\<not> ChangeRequiresRestart from ?to"
    using d by (simp add: ChangeRequiresRestart_def Let_def f list_ex_iff)
  have 1: "ChangeRequiresRestart from (from\<lparr>Folders := Some (take i (elems (Folders from)) @ drop (Suc i) (elems (Folders from)))\<rparr>)"
    if "i < length (elems (Folders from))"
  proof -
    let ?fs = "elems (Folders from)"
    let ?to = "from\<lparr>Folders := Some (take i ?fs @ drop (Suc i) ?fs)\<rparr>"
    have "length (elems (Folders ?to)) = length ?fs - 1"
      using that by (simp add: elems_Some min_absorb2)
    then have "length ?fs \<noteq> length (elems (Folders ?to))"
      using that by simp
    then show ?thesis
      by (rule ChangeRequiresRestart_folder_count)
  qed
  from 1 2 show ?thesis by blast
qed

theorem ChangeRequiresRestart_witness:
  "0 < length (elems (Folders example_v5))
   \<and> ChangeRequiresRestart example_v5 (example_v5\<lparr>Folders := Some []\<rparr>)
   \<and> \<not> ChangeRequiresRestart example_v5
         (example_v5\<lparr>Devices := Some [(example_device 2)\<lparr>Name := ''renamed''\<rparr>]\<rparr>)"
proof -
  have F: "elems (Folders example_v5)
             = [zero_Folder\<lparr>ID := ''default'', Path := ''/data'',
                  Folder_Devices := Some [example_edge 2, example_edge 9, example_edge 2]\<rparr>]"
    and D: "Devices example_v5 = Some [example_device 2]"
    by (simp_all add: example_v5_def zero_Configuration_def elems_def)
  show ?thesis
    using ChangeRequiresRestart_folder_removed_device_renamed
            [of 0 example_v5 0 "''renamed''"]
    by (simp add: F D)
qed

section \<open>Names on the wire\<close>

lemma foldl_last_array:
  fixes h :: "'a list list"
  assumes step: "\<And>ys i. i < n \<Longrightarrow> length ys = n \<Longrightarrow> step (h @ [ys]) i = h @ [ys[i := g i (ys ! i)]]"
    and "k \<le> n" and "length xs = n"
  shows "foldl step (h @ [xs]) [0..<k]
           = h @ [map (\<lambda>j. if j < k then g j (xs ! j) else xs ! j) [0..<n]]"
  using assms(2)
proof (induction k)
  case 0
  have "map (\<lambda>j. xs ! j) [0..<n] = xs"
    using assms(3) by (auto intro: nth_equalityI)
  then show ?case by simp
next
  case (Suc k)
  let ?ys = "map (\<lambda>j. if j < k then g j (xs ! j) else xs ! j) [0..<n]"
  have kn: "k < n" using Suc.prems by simp
  have ly: "length ?ys = n" by simp
  have "foldl step (h @ [xs]) [0..<Suc k] = step (h @ [?ys]) k"
    using Suc.IH kn by simp
  also have "\<dots> = h @ [?ys[k := g k (?ys ! k)]]"
    using kn ly by (rule step)
  also have "?ys[k := g k (?ys ! k)]
               = map (\<lambda>j. if j < Suc k then g j (xs ! j) else xs ! j) [0..<n]"
    using kn by (intro nth_equalityI) (auto simp: nth_list_update less_Suc_eq)
  finally show ?case .
qed

lemma contents_nth:
  assumes "valid h fs"
  shows "contents h fs = map (\<lambda>j. h ! arr fs ! (off fs + j)) [0..<len fs]"
  using assms
  by (intro nth_equalityI) (auto simp: contents_def valid_def)

lemma length_contents: "valid h fs \<Longrightarrow> length (contents h fs) = len fs"
  by (simp add: contents_nth)

lemma wire_names_eq:
  fixes h :: "'r::zero store"
  assumes "valid h fs"
  shows "wire_names t h fs
           = (h @ [map (wire_name t) (contents h fs)], \<lparr>arr = length h, off = 0, len = len fs\<rparr>)"
proof -
  let ?n = "len fs"
  let ?myFs = "\<lparr>arr = length h, off = 0, len = ?n\<rparr>"
  let ?zs = "replicate ?n \<lparr>FileInfo_Name = [], FileInfo_rest = 0 :: 'r\<rparr>"
  from assms have a: "arr fs < length h" by (simp add: valid_def)
  have copy_step: "store_at (h @ [ys]) ?myFs i (load_at (h @ [ys]) fs i)
                     = h @ [ys[i := (\<lambda>i _. h ! arr fs ! (off fs + i)) i (ys ! i)]]" for ys i
    using a by (simp add: store_at_def load_at_def nth_append)
  have "copy_slice (h @ [?zs]) ?myFs fs
          = foldl (\<lambda>h' i. store_at h' ?myFs i (load_at h' fs i)) (h @ [?zs]) [0..<?n]"
    by (simp add: copy_slice_def)
  also have "\<dots> = h @ [map (\<lambda>j. if j < ?n then h ! arr fs ! (off fs + j) else ?zs ! j) [0..<?n]]"
    by (rule foldl_last_array [where n = ?n]) (simp_all add: copy_step)
  also have "\<dots> = h @ [contents h fs]"
    by (simp add: contents_nth [OF assms])
  finally have c: "copy_slice (h @ [?zs]) ?myFs fs = h @ [contents h fs]" .
  have rename_step: "rename_at t ?myFs (h @ [ys]) i = h @ [ys[i := (\<lambda>_. wire_name t) i (ys ! i)]]"
    for ys i
    by (simp add: rename_at_def store_at_def load_at_def wire_name_def)
  have "foldl (rename_at t ?myFs) (h @ [contents h fs]) [0..<?n]
          = h @ [map (\<lambda>j. if j < ?n then wire_name t (contents h fs ! j) else contents h fs ! j)
                   [0..<?n]]"
    by (rule foldl_last_array [where n = ?n])
       (simp_all add: rename_step length_contents [OF assms])
  also have "\<dots> = h @ [map (wire_name t) (contents h fs)]"
    by (intro arg_cong [where f = "\<lambda>x. h @ [x]"] nth_equalityI)
       (simp_all add: length_contents [OF assms])
  finally show ?thesis
    by (simp add: wire_names_def make_slice_def c)
qed

lemma ToSlash_no_separator:
  "Separator t \<noteq> CHR ''/'' \<Longrightarrow> Separator t \<notin> set (ToSlash t path)"
  by (auto simp: ToSlash_def)

lemma frame_contents:
  assumes "valid h fs" and "take (length h) h' = h"
  shows "contents h' fs = contents h fs"
proof -
  from assms(1) have a: "arr fs < length h" by (simp add: valid_def)
  have "h' ! arr fs = take (length h) h' ! arr fs"
    using a by simp
  then show ?thesis
    by (simp add: contents_def assms(2))
qed

lemma only_writes_argumentD:
  assumes "only_writes_argument call"
  shows "length h \<le> length (fst (call h folder s))"
    and "a < length h \<Longrightarrow> a \<noteq> arr s \<Longrightarrow> fst (call h folder s) ! a = h ! a"
  using assms by (simp_all add: only_writes_argument_def)

lemma only_writes_argument_frame:
  assumes "only_writes_argument call"
  shows "take (length h) (fst (call (h @ [xs]) folder \<lparr>arr = length h, off = 0, len = n\<rparr>)) = h"
proof -
  let ?s = "\<lparr>arr = length h, off = 0, len = n\<rparr>"
  let ?r = "fst (call (h @ [xs]) folder ?s)"
  have l: "length (h @ [xs]) \<le> length ?r"
    using assms by (rule only_writes_argumentD(1))
  show ?thesis
  proof (rule nth_equalityI)
    show "length (take (length h) ?r) = length h"
      using l by simp
  next
    fix a assume "a < length (take (length h) ?r)"
    then have a: "a < length h" by simp
    then have "?r ! a = (h @ [xs]) ! a"
      by (intro only_writes_argumentD(2) [OF assms]) simp_all
    with a show "take (length h) ?r ! a = h ! a"
      by (simp add: nth_append)
  qed
qed


lemma ToSlash_eq:
  "ToSlash t path = map (\<lambda>ch. if ch = Separator t then CHR ''/'' else ch) path"
proof (cases "Separator t = CHR ''/''")
  case True
  have "map (\<lambda>ch. if ch = CHR ''/'' then CHR ''/'' else ch) path = path"
    by (induction path) simp_all
  with True show ?thesis by (simp add: ToSlash_def)
next
  case False
  then show ?thesis by (simp add: ToSlash_def)
qed

text \<open>
  C9. \<open>Index\<close> and \<open>IndexUpdate\<close> call the next connection with a slice that has one
  entry for each entry of the caller's slice, in order and equal to it but for the
  name: in the name every separator of the operating system is replaced by a slash,
  all other characters stay, and the result is put in composed normal form
  (\<open>norm.NFC.String\<close>). \<open>Request\<close> forwards its name the same way, and its other
  arguments as they are.
\<close>

theorem wire_format_names:
  fixes h :: "'r::zero store"
  assumes "valid h fs"
  shows "Index t c h folder fs
           = conn_Index (nxt c)
               (h @ [map (\<lambda>f. f\<lparr>FileInfo_Name :=
                              NFC t (map (\<lambda>ch. if ch = Separator t then CHR ''/'' else ch)
                                       (FileInfo_Name f))\<rparr>)
                       (contents h fs)])
               folder \<lparr>arr = length h, off = 0, len = len fs\<rparr>
       \<and> IndexUpdate t c h folder fs
           = conn_IndexUpdate (nxt c)
               (h @ [map (\<lambda>f. f\<lparr>FileInfo_Name :=
                              NFC t (map (\<lambda>ch. if ch = Separator t then CHR ''/'' else ch)
                                       (FileInfo_Name f))\<rparr>)
                       (contents h fs)])
               folder \<lparr>arr = length h, off = 0, len = len fs\<rparr>
       \<and> Request t c folder name offset sz
           = conn_Request (nxt c) folder
               (NFC t (map (\<lambda>ch. if ch = Separator t then CHR ''/'' else ch) name)) offset sz
       \<and> map FileInfo_Name (contents (fst (wire_names t h fs)) (snd (wire_names t h fs)))
           = map (\<lambda>f. NFC t (map (\<lambda>ch. if ch = Separator t then CHR ''/'' else ch)
                                (FileInfo_Name f)))
               (contents h fs)"
proof -
  have w: "wire_name t = (\<lambda>f. f\<lparr>FileInfo_Name :=
             NFC t (map (\<lambda>ch. if ch = Separator t then CHR ''/'' else ch) (FileInfo_Name f))\<rparr>)"
    by (rule ext) (simp add: wire_name_def ToSlash_eq)
  have e: "wire_names t h fs
             = (h @ [map (wire_name t) (contents h fs)], \<lparr>arr = length h, off = 0, len = len fs\<rparr>)"
    by (rule wire_names_eq [OF assms])
  have n: "map FileInfo_Name (contents (fst (wire_names t h fs)) (snd (wire_names t h fs)))
             = map (\<lambda>f. FileInfo_Name (wire_name t f)) (contents h fs)"
    by (simp add: e contents_def length_contents [OF assms] comp_def)
  have i: "Index t c h folder fs
             = conn_Index (nxt c) (h @ [map (wire_name t) (contents h fs)]) folder
                 \<lparr>arr = length h, off = 0, len = len fs\<rparr>"
    and u: "IndexUpdate t c h folder fs
             = conn_IndexUpdate (nxt c) (h @ [map (wire_name t) (contents h fs)]) folder
                 \<lparr>arr = length h, off = 0, len = len fs\<rparr>"
    by (simp_all add: Index_def IndexUpdate_def e)
  have r: "Request t c folder name offset sz
             = conn_Request (nxt c) folder
                 (NFC t (map (\<lambda>ch. if ch = Separator t then CHR ''/'' else ch) name)) offset sz"
    by (simp add: Request_def ToSlash_eq)
  from i u r n show ?thesis
    unfolding w by simp
qed

theorem wire_format_names_witness:
  "valid decomposed_store example_slice
   \<and> Index windows_text echo_conn decomposed_store ''default'' example_slice
       = (decomposed_store
            @ [[\<lparr>FileInfo_Name = [CHR ''d'', CHR ''/'', CHR 0xC3, CHR 0xA9], FileInfo_rest = 0\<rparr>]],
          Some (OSError [CHR ''d'', CHR ''/'', CHR 0xC3, CHR 0xA9]))
   \<and> IndexUpdate windows_text echo_conn decomposed_store ''default'' example_slice
       = (decomposed_store
            @ [[\<lparr>FileInfo_Name = [CHR ''d'', CHR ''/'', CHR 0xC3, CHR 0xA9], FileInfo_rest = 0\<rparr>]],
          Some (OSError [CHR ''d'', CHR ''/'', CHR 0xC3, CHR 0xA9]))
   \<and> Request windows_text echo_conn ''default'' decomposed_name 0 0
       = ([], Some (OSError [CHR ''d'', CHR ''/'', CHR 0xC3, CHR 0xA9]))"
proof -
  let ?x = "\<lparr>FileInfo_Name = [CHR ''d'', CHR ''/'', CHR 0xC3, CHR 0xA9], FileInfo_rest = 0 :: nat\<rparr>"
  have v: "valid decomposed_store example_slice"
    by (simp add: valid_def decomposed_store_def example_slice_def)
  have m: "NFC windows_text
             (map (\<lambda>ch. if ch = Separator windows_text then CHR ''/'' else ch) decomposed_name)
           = [CHR ''d'', CHR ''/'', CHR 0xC3, CHR 0xA9]"
    by (simp add: windows_text_def decomposed_name_def)
  have "contents decomposed_store example_slice
          = [\<lparr>FileInfo_Name = decomposed_name, FileInfo_rest = 0\<rparr>]"
    by (simp add: contents_def decomposed_store_def example_slice_def)
  then have f: "map (\<lambda>f. f\<lparr>FileInfo_Name :=
                   NFC windows_text
                     (map (\<lambda>ch. if ch = Separator windows_text then CHR ''/'' else ch)
                        (FileInfo_Name f))\<rparr>)
                 (contents decomposed_store example_slice) = [?x]"
    by (simp add: m)
  have l: "length decomposed_store = 1" "len example_slice = 1"
    by (simp_all add: decomposed_store_def example_slice_def)
  note t = wire_format_names [OF v, of windows_text echo_conn "''default''" decomposed_name 0 0,
      unfolded f m l]
  have "contents (decomposed_store @ [[?x]]) \<lparr>arr = 1, off = 0, len = 1\<rparr> = [?x]"
    by (simp add: contents_def decomposed_store_def)
  then have e: "conn_Index (nxt echo_conn) (decomposed_store @ [[?x]]) ''default''
                  \<lparr>arr = 1, off = 0, len = 1\<rparr>
                = (decomposed_store @ [[?x]], Some (OSError [CHR ''d'', CHR ''/'', CHR 0xC3, CHR 0xA9]))"
    "conn_IndexUpdate (nxt echo_conn) (decomposed_store @ [[?x]]) ''default''
                  \<lparr>arr = 1, off = 0, len = 1\<rparr>
                = (decomposed_store @ [[?x]], Some (OSError [CHR ''d'', CHR ''/'', CHR 0xC3, CHR 0xA9]))"
    by (simp_all add: echo_conn_def)
  have r: "conn_Request (nxt echo_conn) ''default'' [CHR ''d'', CHR ''/'', CHR 0xC3, CHR 0xA9] 0 0
             = ([], Some (OSError [CHR ''d'', CHR ''/'', CHR 0xC3, CHR 0xA9]))"
    by (simp add: echo_conn_def)
  from t v show ?thesis
    by (simp only: e r)
qed

text \<open>
  C10. The slice that \<open>Index\<close> and \<open>IndexUpdate\<close> hand on lives in a new array: when
  the next connection is called, every array that existed before, and with it every
  element of the caller's slice, is as it was. It still is after the call when the
  next connection writes to no array but the one it was handed.
\<close>

theorem Index_leaves_callers_slice:
  fixes h :: "'r::zero store"
  assumes "valid h fs"
  shows "take (length h) (fst (wire_names t h fs)) = h
       \<and> arr (snd (wire_names t h fs)) = length h
       \<and> contents (fst (wire_names t h fs)) fs = contents h fs
       \<and> (only_writes_argument (conn_Index (nxt c)) \<longrightarrow>
            take (length h) (fst (Index t c h folder fs)) = h
            \<and> contents (fst (Index t c h folder fs)) fs = contents h fs)
       \<and> (only_writes_argument (conn_IndexUpdate (nxt c)) \<longrightarrow>
            take (length h) (fst (IndexUpdate t c h folder fs)) = h
            \<and> contents (fst (IndexUpdate t c h folder fs)) fs = contents h fs)"
proof -
  let ?h = "h @ [map (wire_name t) (contents h fs)]"
  let ?s = "\<lparr>arr = length h, off = 0, len = len fs\<rparr>"
  have e: "wire_names t h fs = (?h, ?s)"
    by (rule wire_names_eq [OF assms])
  have w: "take (length h) (fst (wire_names t h fs)) = h"
    by (simp add: e)
  have w2: "contents (fst (wire_names t h fs)) fs = contents h fs"
    using assms w by (rule frame_contents)
  have i: "take (length h) (fst (Index t c h folder fs)) = h"
    if "only_writes_argument (conn_Index (nxt c))"
    using only_writes_argument_frame [OF that, of h _ folder "len fs"] by (simp add: Index_def e)
  have u: "take (length h) (fst (IndexUpdate t c h folder fs)) = h"
    if "only_writes_argument (conn_IndexUpdate (nxt c))"
    using only_writes_argument_frame [OF that, of h _ folder "len fs"]
    by (simp add: IndexUpdate_def e)
  have i2: "contents (fst (Index t c h folder fs)) fs = contents h fs"
    if "only_writes_argument (conn_Index (nxt c))"
    using assms i [OF that] by (rule frame_contents)
  have u2: "contents (fst (IndexUpdate t c h folder fs)) fs = contents h fs"
    if "only_writes_argument (conn_IndexUpdate (nxt c))"
    using assms u [OF that] by (rule frame_contents)
  have a: "arr (snd (wire_names t h fs)) = length h"
    by (simp add: e)
  from w a w2 i i2 u u2 show ?thesis by blast
qed

theorem Index_leaves_callers_slice_witness:
  "valid example_store example_slice
   \<and> only_writes_argument (conn_Index (nxt example_conn))
   \<and> only_writes_argument (conn_IndexUpdate (nxt example_conn))
   \<and> take (length example_store)
        (fst (Index example_text example_conn example_store ''default'' example_slice))
       = example_store
   \<and> contents (fst (Index example_text example_conn example_store ''default'' example_slice))
        example_slice = contents example_store example_slice
   \<and> take (length example_store)
        (fst (IndexUpdate example_text example_conn example_store ''default'' example_slice))
       = example_store
   \<and> contents (fst (IndexUpdate example_text example_conn example_store ''default'' example_slice))
        example_slice = contents example_store example_slice"
proof -
  have v: "valid example_store example_slice"
    by (simp add: valid_def example_store_def example_slice_def)
  have o: "only_writes_argument (conn_Index (nxt example_conn))"
    "only_writes_argument (conn_IndexUpdate (nxt example_conn))"
    by (simp_all add: only_writes_argument_def example_conn_def)
  show ?thesis
    using Index_leaves_callers_slice [OF v, of example_text example_conn "''default''"] v o
    by simp
qed


end
